theory Spec2Isabelle
  imports Complex_Main "HOL-Library.Multiset"
begin

section \<open>JavaScript values\<close>

text \<open>
  A JavaScript number is a double: a finite one is given by its value, a real number,
  and there are the two infinities and NaN. The sign of zero is not modelled. An
  arithmetic operation of the language gives the exact result, rounded to a double.
  The functions \<open>jsneg\<close> to \<open>jssqrt\<close> below give the exact results, with the special
  values that division by zero and arithmetic on \<open>undefined\<close> produce; the rounding
  follows them.
\<close>

datatype jsnum = Num real | PosInf | NegInf | NaN

fun jsneg :: "jsnum \<Rightarrow> jsnum" where
  "jsneg (Num a) = Num (- a)"
| "jsneg PosInf = NegInf"
| "jsneg NegInf = PosInf"
| "jsneg NaN = NaN"

fun jsadd :: "jsnum \<Rightarrow> jsnum \<Rightarrow> jsnum" where
  "jsadd NaN _ = NaN"
| "jsadd _ NaN = NaN"
| "jsadd (Num a) (Num b) = Num (a + b)"
| "jsadd PosInf NegInf = NaN"
| "jsadd NegInf PosInf = NaN"
| "jsadd PosInf _ = PosInf"
| "jsadd _ PosInf = PosInf"
| "jsadd NegInf _ = NegInf"
| "jsadd _ NegInf = NegInf"

definition jssub :: "jsnum \<Rightarrow> jsnum \<Rightarrow> jsnum" where
  "jssub a b = jsadd a (jsneg b)"

text \<open>The sign of a number that is neither NaN nor zero, as \<open>-1\<close> or \<open>1\<close>; \<open>0\<close> otherwise.\<close>

fun jssign :: "jsnum \<Rightarrow> int" where
  "jssign (Num a) = (if a < 0 then - 1 else if 0 < a then 1 else 0)"
| "jssign PosInf = 1"
| "jssign NegInf = - 1"
| "jssign NaN = 0"

fun jsmul :: "jsnum \<Rightarrow> jsnum \<Rightarrow> jsnum" where
  "jsmul NaN _ = NaN"
| "jsmul _ NaN = NaN"
| "jsmul (Num a) (Num b) = Num (a * b)"
| "jsmul a b =
     (if jssign a * jssign b = 0 then NaN
      else if jssign a * jssign b < 0 then NegInf else PosInf)"

fun jsdiv :: "jsnum \<Rightarrow> jsnum \<Rightarrow> jsnum" where
  "jsdiv NaN _ = NaN"
| "jsdiv _ NaN = NaN"
| "jsdiv (Num a) (Num b) =
     (if b = 0 then (if a = 0 then NaN else if 0 < a then PosInf else NegInf)
      else Num (a / b))"
| "jsdiv (Num a) _ = Num 0"
| "jsdiv PosInf (Num b) = (if b < 0 then NegInf else PosInf)"
| "jsdiv NegInf (Num b) = (if b < 0 then PosInf else NegInf)"
| "jsdiv _ _ = NaN"

text \<open>\<open>Math.sqrt\<close>: NaN on a negative argument.\<close>

fun jssqrt :: "jsnum \<Rightarrow> jsnum" where
  "jssqrt (Num a) = (if a < 0 then NaN else Num (sqrt a))"
| "jssqrt PosInf = PosInf"
| "jssqrt NegInf = NaN"
| "jssqrt NaN = NaN"

text \<open>
  The rounding of the number format, to the nearest double and to an infinity on
  overflow, is a function of the language that the program does not define: it is the
  parameter \<open>rnd\<close> of what follows. An infinity and NaN stay as they are. The
  operations \<open>+\<close>, \<open>-\<close>, \<open>*\<close>, \<open>/\<close> and \<open>Math.sqrt\<close> of the language are the exact
  operations followed by the rounding.
\<close>

definition rounded :: "(real \<Rightarrow> jsnum) \<Rightarrow> jsnum \<Rightarrow> jsnum" where
  "rounded rnd r = (case r of Num x \<Rightarrow> rnd x | _ \<Rightarrow> r)"

definition num_add :: "(real \<Rightarrow> jsnum) \<Rightarrow> jsnum \<Rightarrow> jsnum \<Rightarrow> jsnum" where
  "num_add rnd a b = rounded rnd (jsadd a b)"

definition num_sub :: "(real \<Rightarrow> jsnum) \<Rightarrow> jsnum \<Rightarrow> jsnum \<Rightarrow> jsnum" where
  "num_sub rnd a b = rounded rnd (jssub a b)"

definition num_mul :: "(real \<Rightarrow> jsnum) \<Rightarrow> jsnum \<Rightarrow> jsnum \<Rightarrow> jsnum" where
  "num_mul rnd a b = rounded rnd (jsmul a b)"

definition num_div :: "(real \<Rightarrow> jsnum) \<Rightarrow> jsnum \<Rightarrow> jsnum \<Rightarrow> jsnum" where
  "num_div rnd a b = rounded rnd (jsdiv a b)"

definition num_sqrt :: "(real \<Rightarrow> jsnum) \<Rightarrow> jsnum \<Rightarrow> jsnum" where
  "num_sqrt rnd a = rounded rnd (jssqrt a)"

text \<open>The comparisons \<open>>\<close> and \<open>>=\<close> of JavaScript: false as soon as one side is NaN.\<close>

fun jsgt :: "jsnum \<Rightarrow> jsnum \<Rightarrow> bool" where
  "jsgt NaN _ = False"
| "jsgt _ NaN = False"
| "jsgt (Num a) (Num b) = (b < a)"
| "jsgt PosInf b = (b \<noteq> PosInf)"
| "jsgt a NegInf = (a \<noteq> NegInf)"
| "jsgt _ _ = False"

fun jsge :: "jsnum \<Rightarrow> jsnum \<Rightarrow> bool" where
  "jsge NaN _ = False"
| "jsge _ NaN = False"
| "jsge a b = (a = b \<or> jsgt a b)"

text \<open>
  A parsed JSON value. An object is the list of its own properties in enumeration
  order. \<open>undefined\<close> is not a JSON value; a JavaScript value that may be
  \<open>undefined\<close> is a \<open>json option\<close>, with \<open>None\<close> for \<open>undefined\<close>.
\<close>

datatype json =
    JNull
  | JBool bool
  | JNum real
  | JStr string
  | JArr "json list"
  | JObj "(string \<times> json) list"

type_synonym jsval = "json option"

type_synonym vector = "real list"

datatype js_error = TypeError | ProviderError | IOError

section \<open>Documents\<close>

record doc_data =
  title :: jsval
  snippet :: jsval

record document =
  doc_id :: string
  data :: doc_data
  embedding :: "vector option"

section \<open>Utility functions\<close>

text \<open>
  \<open>Array.prototype.reduce\<close> with a callback that also takes the index.
\<close>

fun reduce_idx :: "('s \<Rightarrow> 'a \<Rightarrow> nat \<Rightarrow> 's) \<Rightarrow> 's \<Rightarrow> nat \<Rightarrow> 'a list \<Rightarrow> 's" where
  "reduce_idx f s idx [] = s"
| "reduce_idx f s idx (a # as) = reduce_idx f (f s a idx) (Suc idx) as"

definition reduce :: "('s \<Rightarrow> 'a \<Rightarrow> 's) \<Rightarrow> 's \<Rightarrow> 'a list \<Rightarrow> 's" where
  "reduce f s xs = reduce_idx (\<lambda>s a idx. f s a) s 0 xs"

text \<open>
  \<open>vecB[idx]\<close> used as a number: an index past the end reads \<open>undefined\<close>, which
  arithmetic converts to NaN.
\<close>

definition elem :: "vector \<Rightarrow> nat \<Rightarrow> jsnum" where
  "elem v idx = (if idx < length v then Num (v ! idx) else NaN)"

text \<open>
  The three reductions of \<open>cosineSimilarity\<close>: the dot product, which runs over the
  indices of \<open>vecA\<close>, and the magnitude of a vector.
\<close>

definition dot_product :: "(real \<Rightarrow> jsnum) \<Rightarrow> vector \<Rightarrow> vector \<Rightarrow> jsnum" where
  "dot_product rnd vecA vecB =
     reduce_idx (\<lambda>sum a idx. num_add rnd sum (num_mul rnd (Num a) (elem vecB idx))) (Num 0) 0 vecA"

definition magnitude :: "(real \<Rightarrow> jsnum) \<Rightarrow> vector \<Rightarrow> jsnum" where
  "magnitude rnd vec =
     num_sqrt rnd (reduce (\<lambda>sum a. num_add rnd sum (num_mul rnd (Num a) (Num a))) (Num 0) vec)"

definition cosineSimilarity :: "(real \<Rightarrow> jsnum) \<Rightarrow> vector \<Rightarrow> vector \<Rightarrow> jsnum" where
  "cosineSimilarity rnd vecA vecB =
     (let dotProduct = dot_product rnd vecA vecB;
          magA = magnitude rnd vecA;
          magB = magnitude rnd vecB
      in num_div rnd dotProduct (num_mul rnd magA magB))"

text \<open>
  \<open>Array.prototype.sort\<close> with a comparison function. The comparison result is a
  number; NaN counts as \<open>+0\<close>. The sort is stable, and it is modelled as the stable
  insertion sort: an element moves behind another one only when the comparison function
  says it must (a positive result). Where the comparison function is consistent, as it
  is when no score is NaN or when all comparisons are ties, the language fixes this
  result. Where it is not (a NaN score among scores that differ), the language leaves
  the order to the implementation, and the model is one such order.
\<close>

fun sort_insert :: "('a \<Rightarrow> 'a \<Rightarrow> jsnum) \<Rightarrow> 'a \<Rightarrow> 'a list \<Rightarrow> 'a list" where
  "sort_insert cmp x [] = [x]"
| "sort_insert cmp x (y # ys) =
     (if jsgt (cmp x y) (Num 0) then y # sort_insert cmp x ys else x # y # ys)"

definition array_sort :: "('a \<Rightarrow> 'a \<Rightarrow> jsnum) \<Rightarrow> 'a list \<Rightarrow> 'a list" where
  "array_sort cmp xs = foldr (sort_insert cmp) xs []"

record scored =
  doc :: document
  score :: jsnum

text \<open>
  \<open>cosineSimilarity(queryEmbedding, doc.embedding)\<close> for a document that may have no
  \<open>embedding\<close> property: \<open>vecB.reduce\<close> on \<open>undefined\<close> throws a TypeError.
\<close>

definition similarity :: "(real \<Rightarrow> jsnum) \<Rightarrow> vector \<Rightarrow> document \<Rightarrow> js_error + scored" where
  "similarity rnd queryEmbedding d =
     (case embedding d of
        None \<Rightarrow> Inl TypeError
      | Some v \<Rightarrow> Inr \<lparr>doc = d, score = cosineSimilarity rnd queryEmbedding v\<rparr>)"

text \<open>\<open>Array.prototype.map\<close> with a callback that may throw: the first exception ends it.\<close>

fun map_throwing :: "('a \<Rightarrow> js_error + 'b) \<Rightarrow> 'a list \<Rightarrow> js_error + 'b list" where
  "map_throwing f [] = Inr []"
| "map_throwing f (x # xs) =
     (case f x of
        Inl e \<Rightarrow> Inl e
      | Inr y \<Rightarrow> (case map_throwing f xs of Inl e \<Rightarrow> Inl e | Inr ys \<Rightarrow> Inr (y # ys)))"

text \<open>
  \<open>k\<close> is a count: the only caller passes the literal \<open>10\<close>, the default is \<open>5\<close>;
  \<open>slice(0, k)\<close> is then the first \<open>k\<close> elements.
\<close>

definition getTopKDocuments ::
  "(real \<Rightarrow> jsnum) \<Rightarrow> vector \<Rightarrow> document list \<Rightarrow> nat \<Rightarrow> js_error + document list" where
  "getTopKDocuments rnd queryEmbedding documents k =
     (case map_throwing (similarity rnd queryEmbedding) documents of
        Inl e \<Rightarrow> Inl e
      | Inr similarities \<Rightarrow>
          Inr (map doc (take k (array_sort (\<lambda>a b. num_sub rnd (score b) (score a)) similarities))))"


text \<open>
  The similarity the search assigns to a document, for stating how a result is ordered.
  A document with no embedding has none (the search throws); it is written NaN here.
\<close>

definition sim :: "(real \<Rightarrow> jsnum) \<Rightarrow> vector \<Rightarrow> document \<Rightarrow> jsnum" where
  "sim rnd q d = (case embedding d of None \<Rightarrow> NaN | Some v \<Rightarrow> cosineSimilarity rnd q v)"

text \<open>
  Two facts of the number format, as properties of the rounding. The difference of two
  doubles rounds to a number of its own sign: two different doubles differ by the
  smallest positive double at least, so their difference does not round to zero, and a
  difference that overflows rounds to the infinity of its sign. It is what makes
  \<open>b.score - a.score\<close> a comparison function.
\<close>

definition sign_faithful :: "(real \<Rightarrow> jsnum) \<Rightarrow> bool" where
  "sign_faithful rnd =
     (\<forall>u v x y. rnd u = Num x \<and> rnd v = Num y \<longrightarrow> jsgt (rnd (y - x)) (Num 0) = (x < y))"

text \<open>A number that an operation can give: an infinity, NaN, or a value of the rounding.\<close>

definition representable :: "(real \<Rightarrow> jsnum) \<Rightarrow> jsnum \<Rightarrow> bool" where
  "representable rnd a = (case a of Num x \<Rightarrow> (\<exists>u. rnd u = Num x) | _ \<Rightarrow> True)"

section \<open>Operations of JavaScript on parsed JSON\<close>

text \<open>\<open>null\<close> and \<open>undefined\<close>.\<close>

fun nullish :: "jsval \<Rightarrow> bool" where
  "nullish None = True"
| "nullish (Some JNull) = True"
| "nullish _ = False"

text \<open>The values that count as true in a condition and on the left of \<open>||\<close>.\<close>

fun truthy :: "jsval \<Rightarrow> bool" where
  "truthy None = False"
| "truthy (Some JNull) = False"
| "truthy (Some (JBool b)) = b"
| "truthy (Some (JNum x)) = (x \<noteq> 0)"
| "truthy (Some (JStr s)) = (s \<noteq> [])"
| "truthy (Some (JArr _)) = True"
| "truthy (Some (JObj _)) = True"

definition js_or :: "jsval \<Rightarrow> jsval \<Rightarrow> jsval" where
  "js_or a b = (if truthy a then a else b)"

text \<open>
  \<open>x.key\<close> for one of the property names the program reads. Reading a property of
  \<open>null\<close> or \<open>undefined\<close> throws; an object gives its own property; an array, a
  string, a number or a boolean has none of these names.
\<close>

fun get_prop :: "jsval \<Rightarrow> string \<Rightarrow> js_error + jsval" where
  "get_prop None key = Inl TypeError"
| "get_prop (Some JNull) key = Inl TypeError"
| "get_prop (Some (JObj kvs)) key = Inr (map_of kvs key)"
| "get_prop (Some _) key = Inr None"

text \<open>\<open>x?.key\<close>: \<open>undefined\<close> when \<open>x\<close> is \<open>null\<close> or \<open>undefined\<close>.\<close>

fun opt_prop :: "jsval \<Rightarrow> string \<Rightarrow> jsval" where
  "opt_prop (Some (JObj kvs)) key = map_of kvs key"
| "opt_prop _ key = None"

text \<open>\<open>x?.[0]\<close>: the first element of an array, the first character of a string.\<close>

fun opt_index0 :: "jsval \<Rightarrow> jsval" where
  "opt_index0 (Some (JArr (x # _))) = Some x"
| "opt_index0 (Some (JStr (c # _))) = Some (JStr [c])"
| "opt_index0 (Some (JObj kvs)) = map_of kvs ''0''"
| "opt_index0 _ = None"

fun join_strings :: "string \<Rightarrow> string list \<Rightarrow> string" where
  "join_strings sep [] = []"
| "join_strings sep [x] = x"
| "join_strings sep (x # y # ys) = x @ sep @ join_strings sep (y # ys)"

text \<open>
  The conversion of a value to a string, as string concatenation and template literals
  do it. The first argument is \<open>Number.prototype.toString\<close>, a function of the
  language that is not part of this program. An array is its elements joined with a
  comma, where \<open>null\<close> gives the empty string. An object is converted by the
  \<open>toString\<close> it inherits. An object with a property of its own that is named
  \<open>toString\<close> is outside this model: JavaScript throws a TypeError when it converts
  such an object, and the model has no such error.
\<close>

fun to_string :: "(real \<Rightarrow> string) \<Rightarrow> json \<Rightarrow> string"
  and element_strings :: "(real \<Rightarrow> string) \<Rightarrow> json list \<Rightarrow> string list" where
  "to_string n JNull = ''null''"
| "to_string n (JBool b) = (if b then ''true'' else ''false'')"
| "to_string n (JNum x) = n x"
| "to_string n (JStr s) = s"
| "to_string n (JArr xs) = join_strings '','' (element_strings n xs)"
| "to_string n (JObj kvs) = ''[object Object]''"
| "element_strings n [] = []"
| "element_strings n (JNull # xs) = [] # element_strings n xs"
| "element_strings n (x # xs) = to_string n x # element_strings n xs"

text \<open>\<open>${v}\<close> in a template literal.\<close>

definition template :: "(real \<Rightarrow> string) \<Rightarrow> jsval \<Rightarrow> string" where
  "template n v = (case v of None \<Rightarrow> ''undefined'' | Some j \<Rightarrow> to_string n j)"

text \<open>\<open>Array.prototype.join\<close>: \<open>null\<close> and \<open>undefined\<close> elements give the empty string.\<close>

definition array_join :: "(real \<Rightarrow> string) \<Rightarrow> string \<Rightarrow> jsval list \<Rightarrow> string" where
  "array_join n sep xs = join_strings sep (map (\<lambda>x. if nullish x then [] else template n x) xs)"

text \<open>
  \<open>s.replace(/<[^>]+>/g, '')\<close>: a \<open><\<close>, then one or more characters other than
  \<open>>\<close>, then a \<open>>\<close>, is removed; the search goes on behind the match. A \<open><\<close>
  that starts no match is kept.
\<close>

function strip_tags :: "string \<Rightarrow> string" where
  "strip_tags [] = []"
| "strip_tags (c # cs) =
     (if c = CHR ''<'' \<and> takeWhile (\<lambda>x. x \<noteq> CHR ''>'') cs \<noteq> [] \<and> dropWhile (\<lambda>x. x \<noteq> CHR ''>'') cs \<noteq> []
      then strip_tags (tl (dropWhile (\<lambda>x. x \<noteq> CHR ''>'') cs))
      else c # strip_tags cs)"
  by pat_completeness auto
termination
proof (relation "measure length")
  show "wf (measure length)" by simp
next
  fix c :: char and cs :: string
  have "length (tl (dropWhile (\<lambda>x. x \<noteq> CHR ''>'') cs)) \<le> length cs"
    using length_dropWhile_le [of "\<lambda>x. x \<noteq> CHR ''>''" cs] by simp
  then show "(tl (dropWhile (\<lambda>x. x \<noteq> CHR ''>'') cs), c # cs) \<in> measure length" by simp
next
  fix c :: char and cs :: string
  show "(cs, c # cs) \<in> measure length" by simp
qed

text \<open>\<open>String.prototype.includes\<close>.\<close>

fun starts_with :: "string \<Rightarrow> string \<Rightarrow> bool" where
  "starts_with s [] = True"
| "starts_with [] (c # cs) = False"
| "starts_with (d # ds) (c # cs) = (d = c \<and> starts_with ds cs)"

fun string_includes :: "string \<Rightarrow> string \<Rightarrow> bool" where
  "string_includes [] sub = (sub = [])"
| "string_includes (c # cs) sub = (starts_with (c # cs) sub \<or> string_includes cs sub)"

text \<open>The decimal digits of a natural number, as a template literal prints a count.\<close>

function show_nat :: "nat \<Rightarrow> string" where
  "show_nat n =
     (if n < 10 then [''0123456789'' ! n] else show_nat (n div 10) @ [''0123456789'' ! (n mod 10)])"
  by pat_completeness auto
termination
  by (relation "measure id") auto

declare show_nat.simps [simp del]


text \<open>\<open>Object.values(x)\<close>: throws on \<open>null\<close> and \<open>undefined\<close>.\<close>

fun object_values :: "jsval \<Rightarrow> js_error + json list" where
  "object_values None = Inl TypeError"
| "object_values (Some JNull) = Inl TypeError"
| "object_values (Some (JObj kvs)) = Inr (map snd kvs)"
| "object_values (Some (JArr xs)) = Inr xs"
| "object_values (Some (JStr s)) = Inr (map (\<lambda>c. JStr [c]) s)"
| "object_values (Some _) = Inr []"

text \<open>An object literal handed to \<open>JSON.stringify\<close>: an \<open>undefined\<close> property is left out.\<close>

definition json_object :: "(string \<times> jsval) list \<Rightarrow> json" where
  "json_object kvs = JObj (concat (map (\<lambda>(k, v). case v of None \<Rightarrow> [] | Some j \<Rightarrow> [(k, j)]) kvs))"

section \<open>The program's surroundings\<close>

datatype console_entry = Log string | Warn string | Error string

text \<open>
  A source file of the corpus, by what \<open>fs.readFile\<close> and \<open>JSON.parse\<close> make of it.
\<close>

datatype file_content = Unreadable | Unparsable | Parsed json

text \<open>
  The embeddings file, in three states: \<open>Absent\<close>, the file cannot be read;
  \<open>Corrupt\<close>, the file is there and \<open>JSON.parse\<close> throws on its text; \<open>Saved\<close>, the
  file holds what \<open>saveEmbeddingsToFile\<close> writes, an array of records
  \<open>{id, title, snippet, embedding}\<close>, where \<open>JSON.stringify\<close> has left out the
  properties that were \<open>undefined\<close>. A file that parses to anything else (a value that is
  no array, an array of other values) is outside this model.
\<close>

record cache_item =
  item_id :: string
  item_title :: jsval
  item_snippet :: jsval
  item_embedding :: "vector option"

datatype cache_file = Absent | Corrupt | Saved "cache_item list"

text \<open>
  The calls to the provider. Of a chat request the message and the documents are kept;
  the model name, the preamble, the temperature and the token limit are constants.
\<close>

record chat_request =
  chat_message :: json
  chat_documents :: "string list option"

record chat_response =
  response_text :: jsval
  citations :: jsval

text \<open>
  What the program calls and does not define: the number formatting and the rounding of
  the language, and the two operations of the provider. A provider call is given the number of calls made
  before it; \<open>None\<close> is a call that throws.
\<close>

record provider =
  numberToString :: "real \<Rightarrow> string"
  roundNumber :: "real \<Rightarrow> jsnum"
  embed :: "nat \<Rightarrow> json list \<Rightarrow> vector list option"
  chat :: "nat \<Rightarrow> chat_request \<Rightarrow> chat_response option"

text \<open>
  The state the program reads and writes: the files, the module variable
  \<open>cachedDocuments\<close> (\<open>None\<close> is \<open>null\<close>), the provider calls made so far, the
  console, and the milliseconds spent in \<open>sleep\<close>.
\<close>

record world =
  source_files :: "string \<Rightarrow> file_content"
  embeddings_file :: cache_file
  disk_writable :: bool
  cachedDocuments :: "document list option"
  embed_calls :: "json list list"
  chat_calls :: "chat_request list"
  console :: "console_entry list"
  slept :: nat

definition print :: "console_entry \<Rightarrow> world \<Rightarrow> world" where
  "print entry w = w\<lparr>console := console w @ [entry]\<rparr>"

text \<open>The state when the module has been loaded: \<open>let cachedDocuments = []\<close>.\<close>

definition startup :: "(string \<Rightarrow> file_content) \<Rightarrow> cache_file \<Rightarrow> bool \<Rightarrow> world" where
  "startup sources cache writable =
     \<lparr>source_files = sources, embeddings_file = cache, disk_writable = writable,
      cachedDocuments = Some [], embed_calls = [], chat_calls = [], console = [], slept = 0\<rparr>"

definition EMBEDDINGS_FILE :: string where
  "EMBEDDINGS_FILE = ''./documents/embeddings.json''"

section \<open>Load documents\<close>

text \<open>
  \<open>tour.details?.map(d => d.body).join(' ') || ''\<close>: a \<open>details\<close> that is there and is
  no array has no \<open>map\<close> to call.
\<close>

definition details_snippet :: "(real \<Rightarrow> string) \<Rightarrow> jsval \<Rightarrow> js_error + string" where
  "details_snippet n details =
     (if nullish details then Inr []
      else case details of
             Some (JArr ds) \<Rightarrow>
               (case map_throwing (\<lambda>d. get_prop (Some d) ''body'') ds of
                  Inl e \<Rightarrow> Inl e
                | Inr bodies \<Rightarrow> Inr (array_join n '' '' bodies))
           | _ \<Rightarrow> Inl TypeError)"

definition tour_details_doc :: "(real \<Rightarrow> string) \<Rightarrow> json \<Rightarrow> js_error + document" where
  "tour_details_doc n tour =
     (case get_prop (Some tour) ''details'' of
        Inl e \<Rightarrow> Inl e
      | Inr details \<Rightarrow>
          (case details_snippet n details of
             Inl e \<Rightarrow> Inl e
           | Inr detailsSnippet \<Rightarrow>
               Inr \<lparr>doc_id = ''tour_details_'' @ template n (opt_prop (Some tour) ''name''),
                    data = \<lparr>title = opt_prop (Some tour) ''name'',
                            snippet = Some (JStr (template n (js_or (opt_prop (Some tour) ''description'') (Some (JStr [])))
                                                  @ '' '' @ detailsSnippet))\<rparr>,
                    embedding = None\<rparr>))"

definition tours_doc :: "(real \<Rightarrow> string) \<Rightarrow> json \<Rightarrow> js_error + document" where
  "tours_doc n tour =
     (case get_prop (Some tour) ''name'' of
        Inl e \<Rightarrow> Inl e
      | Inr name \<Rightarrow>
          Inr \<lparr>doc_id = ''tours_'' @ template n name,
               data = \<lparr>title = name,
                       snippet = js_or (opt_prop (Some tour) ''product_line'') (Some (JStr []))\<rparr>,
               embedding = None\<rparr>)"

definition rest_countries_doc :: "(real \<Rightarrow> string) \<Rightarrow> json \<Rightarrow> js_error + document" where
  "rest_countries_doc n country =
     (case get_prop (Some country) ''languages'' of
        Inl e \<Rightarrow> Inl e
      | Inr languages \<Rightarrow>
          (case object_values (js_or languages (Some (JObj []))) of
             Inl e \<Rightarrow> Inl e
           | Inr vs \<Rightarrow>
               (let languageList = array_join n '', '' (map Some vs);
                    name = opt_prop (Some country) ''name''
                in Inr \<lparr>doc_id = ''rest_countries_'' @ template n (opt_prop name ''common''),
                        data = \<lparr>title = js_or (opt_prop name ''common'') (Some (JStr [])),
                                snippet = Some (JStr (
                                  ''Official Name: '' @ template n (opt_prop name ''official'')
                                  @ ''. Capital: '' @ template n (js_or (opt_index0 (opt_prop (Some country) ''capital'')) (Some (JStr [])))
                                  @ ''. Region: '' @ template n (opt_prop (Some country) ''region'')
                                  @ ''. Subregion: '' @ template n (opt_prop (Some country) ''subregion'')
                                  @ ''. Population: '' @ template n (opt_prop (Some country) ''population'')
                                  @ ''. Languages: '' @ languageList
                                  @ ''. Area: '' @ template n (opt_prop (Some country) ''area'')
                                  @ '' sq km.''))\<rparr>,
                        embedding = None\<rparr>)))"

definition unesco_sites_doc :: "(real \<Rightarrow> string) \<Rightarrow> json \<Rightarrow> js_error + document" where
  "unesco_sites_doc n site =
     (case get_prop (Some site) ''site'' of
        Inl e \<Rightarrow> Inl e
      | Inr name \<Rightarrow>
          (let description = opt_prop (Some site) ''short_description''
           in if nullish description
              then Inr \<lparr>doc_id = ''unesco_sites_'' @ template n name,
                        data = \<lparr>title = js_or name (Some (JStr [])), snippet = Some (JStr [])\<rparr>,
                        embedding = None\<rparr>
              else case description of
                     Some (JStr s) \<Rightarrow>
                       Inr \<lparr>doc_id = ''unesco_sites_'' @ template n name,
                            data = \<lparr>title = js_or name (Some (JStr [])),
                                    snippet = js_or (Some (JStr (strip_tags s))) (Some (JStr []))\<rparr>,
                            embedding = None\<rparr>
                   | _ \<Rightarrow> Inl TypeError))"

definition merged_countries_doc :: "(real \<Rightarrow> string) \<Rightarrow> json \<Rightarrow> js_error + document" where
  "merged_countries_doc n country =
     (case get_prop (Some country) ''name'' of
        Inl e \<Rightarrow> Inl e
      | Inr name \<Rightarrow>
          Inr \<lparr>doc_id = ''merged_countries_'' @ template n name,
               data = \<lparr>title = js_or name (Some (JStr [])),
                       snippet = Some (JStr (
                         ''Capital: '' @ template n (opt_prop (Some country) ''capital'')
                         @ '', Region: '' @ template n (opt_prop (Some country) ''region'')
                         @ '', Population: '' @ template n (opt_prop (Some country) ''population'')
                         @ '', Language: '' @ template n (opt_prop (Some country) ''language'')
                         @ '', Currency: '' @ template n (opt_prop (Some country) ''currency'')))\<rparr>,
               embedding = None\<rparr>)"

text \<open>
  \<open>xs.forEach(x => documents.push(f(x)))\<close>: the documents pushed before an exception stay
  in \<open>documents\<close>.
\<close>

fun forEach_push :: "('a \<Rightarrow> js_error + document) \<Rightarrow> 'a list \<Rightarrow> document list \<Rightarrow> document list \<times> js_error option" where
  "forEach_push f [] documents = (documents, None)"
| "forEach_push f (x # xs) documents =
     (case f x of
        Inl e \<Rightarrow> (documents, Some e)
      | Inr d \<Rightarrow> forEach_push f xs (documents @ [d]))"

text \<open>\<open>json.forEach(...)\<close>: only an array has \<open>forEach\<close>.\<close>

fun json_forEach :: "json \<Rightarrow> (json \<Rightarrow> js_error + document) \<Rightarrow> document list \<Rightarrow> document list \<times> js_error option" where
  "json_forEach (JArr xs) f documents = forEach_push f xs documents"
| "json_forEach _ f documents = (documents, Some TypeError)"

text \<open>The body of the \<open>try\<close> block behind \<open>JSON.parse\<close>, for one file.\<close>

definition normalize :: "(real \<Rightarrow> string) \<Rightarrow> string \<Rightarrow> json \<Rightarrow> document list \<Rightarrow> document list \<times> js_error option" where
  "normalize n file json documents =
     (if string_includes file ''tour_details'' then json_forEach json (tour_details_doc n) documents
      else if string_includes file ''tours'' then json_forEach json (tours_doc n) documents
      else if string_includes file ''rest_countries'' then json_forEach json (rest_countries_doc n) documents
      else if string_includes file ''unesco_sites'' then
        (case get_prop (Some json) ''query'' of
           Inl e \<Rightarrow> (documents, Some e)
         | Inr query \<Rightarrow>
             (case opt_prop query ''row'' of
                None \<Rightarrow> (documents, None)
              | Some JNull \<Rightarrow> (documents, None)
              | Some row \<Rightarrow> json_forEach row (unesco_sites_doc n) documents))
      else if string_includes file ''merged_countries'' then json_forEach json (merged_countries_doc n) documents
      else (documents, None))"

definition files :: "string list" where
  "files = [''./documents/tour_details.json'', ''./documents/tours.json'',
            ''./documents/rest_countries.json'', ''./documents/unesco_sites.json'',
            ''./documents/merged_countries.json'']"

text \<open>
  The loop over the files. Whatever is thrown for a file is caught and printed (the
  message without the error object), and the loop goes on with the next file.
\<close>

fun load_files :: "(real \<Rightarrow> string) \<Rightarrow> string list \<Rightarrow> document list \<Rightarrow> world \<Rightarrow> document list \<times> world" where
  "load_files n [] documents w = (documents, w)"
| "load_files n (file # rest) documents w =
     (case source_files w file of
        Parsed json \<Rightarrow>
          (case normalize n file json documents of
             (documents', None) \<Rightarrow> load_files n rest documents' w
           | (documents', Some e) \<Rightarrow>
               load_files n rest documents' (print (Error (''Error reading '' @ file @ '':'')) w))
      | _ \<Rightarrow> load_files n rest documents (print (Error (''Error reading '' @ file @ '':'')) w))"

definition loadDocuments :: "provider \<Rightarrow> world \<Rightarrow> document list \<times> world" where
  "loadDocuments env w =
     (case load_files (numberToString env) files [] w of
        (documents, w') \<Rightarrow>
          (documents, print (Log (''Loaded '' @ show_nat (length documents) @ '' documents'')) w'))"


section \<open>Embedding and the embeddings file\<close>

text \<open>The text that is embedded for a document: \<open>`${doc.data.title}. ${doc.data.snippet}`\<close>.\<close>

definition doc_text :: "(real \<Rightarrow> string) \<Rightarrow> document \<Rightarrow> string" where
  "doc_text n d = template n (title (data d)) @ ''. '' @ template n (snippet (data d))"

text \<open>
  \<open>`Embedding batch ${i / batchSize + 1} of ${Math.ceil(documents.length / batchSize)}...`\<close>.
  In the loop \<open>i\<close> is a multiple of \<open>batchSize\<close> and smaller than the number of
  documents; a \<open>batchSize\<close> of zero gives \<open>0 / 0\<close> and a division of a positive
  number by zero.
\<close>

definition batch_message :: "nat \<Rightarrow> nat \<Rightarrow> nat \<Rightarrow> string" where
  "batch_message i batchSize len =
     (if batchSize = 0 then ''Embedding batch NaN of Infinity...''
      else ''Embedding batch '' @ show_nat (i div batchSize + 1) @ '' of ''
           @ show_nat ((len + batchSize - 1) div batchSize) @ ''...'')"

text \<open>
  The loop of \<open>embedDocumentsInBatches\<close>, from index \<open>i\<close> on. With a \<open>batchSize\<close> of
  zero the index never advances; a run that does not end has the value \<open>None\<close>.
\<close>

partial_function (option) embed_loop ::
  "provider \<Rightarrow> document list \<Rightarrow> nat \<Rightarrow> nat \<Rightarrow> vector list \<Rightarrow> world \<Rightarrow> ((js_error + vector list) \<times> world) option" where
  "embed_loop env documents batchSize i allEmbeddings w =
     (if i < length documents then
        (case embed env (length (embed_calls w))
                (map (\<lambda>d. JStr (doc_text (numberToString env) d)) (take batchSize (drop i documents))) of
           None \<Rightarrow>
             Some (Inl ProviderError,
                   (print (Log (batch_message i batchSize (length documents))) w)
                     \<lparr>embed_calls := embed_calls w @
                        [map (\<lambda>d. JStr (doc_text (numberToString env) d)) (take batchSize (drop i documents))]\<rparr>)
         | Some embeddings \<Rightarrow>
             embed_loop env documents batchSize (i + batchSize) (allEmbeddings @ embeddings)
               ((print (Log (batch_message i batchSize (length documents))) w)
                  \<lparr>embed_calls := embed_calls w @
                     [map (\<lambda>d. JStr (doc_text (numberToString env) d)) (take batchSize (drop i documents))],
                   slept := slept w + 10000\<rparr>))
      else Some (Inr allEmbeddings, w))"

definition embedDocumentsInBatches ::
  "provider \<Rightarrow> document list \<Rightarrow> nat \<Rightarrow> world \<Rightarrow> ((js_error + vector list) \<times> world) option" where
  "embedDocumentsInBatches env documents batchSize w = embed_loop env documents batchSize 0 [] w"

definition saveEmbeddingsToFile :: "document list \<Rightarrow> world \<Rightarrow> (js_error + unit) \<times> world" where
  "saveEmbeddingsToFile documents w =
     (let embeddingsData =
            map (\<lambda>d. \<lparr>item_id = doc_id d, item_title = title (data d),
                       item_snippet = snippet (data d), item_embedding = embedding d\<rparr>) documents
      in if disk_writable w
         then (Inr (), print (Log (''Embeddings saved to '' @ EMBEDDINGS_FILE))
                          (w\<lparr>embeddings_file := Saved embeddingsData\<rparr>))
         else (Inl IOError, w))"

definition loadEmbeddingsFromFile :: "world \<Rightarrow> document list option \<times> world" where
  "loadEmbeddingsFromFile w =
     (case embeddings_file w of
        Saved embeddingsData \<Rightarrow>
          (Some (map (\<lambda>item. \<lparr>doc_id = item_id item,
                               data = \<lparr>title = item_title item, snippet = item_snippet item\<rparr>,
                               embedding = item_embedding item\<rparr>) embeddingsData),
           print (Log (''Loaded '' @ show_nat (length embeddingsData) @ '' embeddings from '' @ EMBEDDINGS_FILE)) w)
      | _ \<Rightarrow>
          (None, print (Warn ''No existing embeddings file found. Will compute embeddings.'') w))"

text \<open>
  \<open>allEmbeddings.forEach((embedding, i) => { documents[i].embedding = embedding; })\<close>:
  an embedding with no document at its index throws.
\<close>

fun assign_embeddings :: "vector list \<Rightarrow> document list \<Rightarrow> js_error + document list" where
  "assign_embeddings [] documents = Inr documents"
| "assign_embeddings (e # es) [] = Inl TypeError"
| "assign_embeddings (e # es) (d # ds) =
     (case assign_embeddings es ds of
        Inl err \<Rightarrow> Inl err
      | Inr ds' \<Rightarrow> Inr (d\<lparr>embedding := Some e\<rparr> # ds'))"

datatype outcome = Resolved | Rejected js_error

definition initializeDocuments :: "provider \<Rightarrow> world \<Rightarrow> (outcome \<times> world) option" where
  "initializeDocuments env w =
     (case loadEmbeddingsFromFile w of
        (loaded, w1) \<Rightarrow>
          (case loaded of
             Some docs \<Rightarrow> Some (Resolved, w1\<lparr>cachedDocuments := Some docs\<rparr>)
           | None \<Rightarrow>
               (case loadDocuments env (w1\<lparr>cachedDocuments := None\<rparr>) of
                  (documents, w2) \<Rightarrow>
                    (case embedDocumentsInBatches env documents 96 (print (Log ''Embedding documents...'') w2) of
                       None \<Rightarrow> None
                     | Some (Inl e, w3) \<Rightarrow> Some (Rejected e, w3)
                     | Some (Inr allEmbeddings, w3) \<Rightarrow>
                         (case assign_embeddings allEmbeddings documents of
                            Inl e \<Rightarrow> Some (Rejected e, w3)
                          | Inr documents' \<Rightarrow>
                              (case saveEmbeddingsToFile documents' w3 of
                                 (Inl e, w4) \<Rightarrow> Some (Rejected e, w4)
                               | (Inr _, w4) \<Rightarrow>
                                   Some (Resolved,
                                         print (Log ''Embeddings ready.'')
                                           (w4\<lparr>cachedDocuments := Some documents'\<rparr>))))))))"

section \<open>API routes\<close>

record http_response =
  status :: nat
  body :: json

text \<open>
  \<open>POST /generate\<close>. The request body is the object that the JSON body parser leaves in
  \<open>req.body\<close>, as the list of its properties. Everything behind the check of the prompt
  is inside \<open>try\<close>: whatever is thrown there gives the response of the \<open>catch\<close> block.
  \<open>getTopKDocuments\<close> is called with \<open>embedResponse.embeddings[0]\<close>, which is
  \<open>undefined\<close> for an empty answer, and with \<open>cachedDocuments\<close>, which may be \<open>null\<close>:
  \<open>documents.map\<close> throws on \<open>null\<close>, and \<open>vecA.reduce\<close> throws on \<open>undefined\<close>
  as soon as there is a document to compare with.
\<close>

definition cohere_failed :: "world \<Rightarrow> http_response \<times> world" where
  "cohere_failed w =
     (\<lparr>status = 500, body = JObj [(''error'', JStr ''Cohere request failed'')]\<rparr>,
      print (Error ''Error communicating with Cohere API:'') w)"

definition generate :: "provider \<Rightarrow> (string \<times> json) list \<Rightarrow> world \<Rightarrow> http_response \<times> world" where
  "generate env reqBody w =
     (case map_of reqBody ''prompt'' of
        None \<Rightarrow> (\<lparr>status = 400, body = JObj [(''error'', JStr ''Prompt is required'')]\<rparr>, w)
      | Some prompt \<Rightarrow>
          if \<not> truthy (Some prompt)
          then (\<lparr>status = 400, body = JObj [(''error'', JStr ''Prompt is required'')]\<rparr>, w)
          else
            (let w1 = (print (Log ''Embedding user prompt...'') w)\<lparr>embed_calls := embed_calls w @ [[prompt]]\<rparr>
             in case embed env (length (embed_calls w)) [prompt] of
                  None \<Rightarrow> cohere_failed w1
                | Some embeddings \<Rightarrow>
                    (case (case cachedDocuments w1 of
                             None \<Rightarrow> Inl TypeError
                           | Some documents \<Rightarrow>
                               (case embeddings of
                                  [] \<Rightarrow> if documents = [] then Inr [] else Inl TypeError
                                | queryEmbedding # _ \<Rightarrow>
                                    getTopKDocuments (roundNumber env) queryEmbedding documents 10)) of
                       Inl e \<Rightarrow> cohere_failed w1
                     | Inr topDocuments \<Rightarrow>
                         (let request = \<lparr>chat_message = prompt,
                                         chat_documents = Some (map (doc_text (numberToString env)) topDocuments)\<rparr>;
                              w2 = (print (Log (''Retrieved top '' @ show_nat (length topDocuments) @ '' documents.'')) w1)
                                     \<lparr>chat_calls := chat_calls w1 @ [request]\<rparr>
                          in case chat env (length (chat_calls w1)) request of
                               None \<Rightarrow> cohere_failed w2
                             | Some response \<Rightarrow>
                                 (\<lparr>status = 200,
                                   body = json_object
                                     [(''text'', response_text response),
                                      (''citations'', if nullish (citations response) then Some (JArr []) else citations response)]\<rparr>,
                                  print (Log ''Cohere chat response:'') w2)))))"

text \<open>\<open>POST /holiday\<close>: \<open>userInput\<close> goes into the message as the template literal prints it.\<close>

definition holiday :: "provider \<Rightarrow> (string \<times> json) list \<Rightarrow> world \<Rightarrow> http_response \<times> world" where
  "holiday env reqBody w =
     (let request = \<lparr>chat_message = JStr (''Generate a holiday itinerary based on this request: \"''
                                    @ template (numberToString env) (map_of reqBody ''userInput'')
                                    @ ''\". Format the response as Day-wise itinerary.''),
                     chat_documents = None\<rparr>;
          w1 = w\<lparr>chat_calls := chat_calls w @ [request]\<rparr>
      in case chat env (length (chat_calls w)) request of
           None \<Rightarrow>
             (\<lparr>status = 500, body = JObj [(''error'', JStr ''Failed to generate itinerary'')]\<rparr>,
              print (Error ''Error:'') w1)
         | Some response \<Rightarrow>
             (\<lparr>status = 200, body = json_object [(''itinerary'', response_text response)]\<rparr>, w1))"

section \<open>Example inputs\<close>

text \<open>
  A provider that answers every embedding call with the vector \<open>[1, 0]\<close> for each text
  and every chat call with a fixed text; a provider whose second embedding call fails.
  The rounding of the examples changes nothing: they compute with \<open>0\<close>, \<open>1\<close> and
  \<open>2\<close>, where every result is a double.
\<close>

definition example_provider :: provider where
  "example_provider =
     \<lparr>numberToString = (\<lambda>x. ''0''),
      roundNumber = Num,
      embed = (\<lambda>c texts. Some (map (\<lambda>t. [1, 0]) texts)),
      chat = (\<lambda>c request. Some \<lparr>response_text = Some (JStr ''Welcome''), citations = None\<rparr>)\<rparr>"

definition failing_provider :: provider where
  "failing_provider =
     \<lparr>numberToString = (\<lambda>x. ''0''),
      roundNumber = Num,
      embed = (\<lambda>c texts. if c = 1 then None else Some (map (\<lambda>t. [1, 0]) texts)),
      chat = (\<lambda>c request. None)\<rparr>"

text \<open>Source files: only \<open>tours.json\<close> is there, with two tours, or with 200 empty records.\<close>

definition example_sources :: "string \<Rightarrow> file_content" where
  "example_sources path =
     (if path = ''./documents/tours.json''
      then Parsed (JArr [JObj [(''name'', JStr ''Andes''), (''product_line'', JStr ''Trek'')],
                         JObj [(''name'', JStr ''Nile'')]])
      else Unreadable)"

definition large_sources :: "string \<Rightarrow> file_content" where
  "large_sources path =
     (if path = ''./documents/tours.json'' then Parsed (JArr (replicate 200 (JObj []))) else Unreadable)"

definition example_documents :: "document list" where
  "example_documents =
     [\<lparr>doc_id = ''tours_Andes'', data = \<lparr>title = Some (JStr ''Andes''), snippet = Some (JStr ''Trek'')\<rparr>,
       embedding = Some [1, 0]\<rparr>,
      \<lparr>doc_id = ''tours_undefined'', data = \<lparr>title = None, snippet = Some (JStr [])\<rparr>,
       embedding = None\<rparr>]"

text \<open>
  The roundings that keep \<open>0\<close> and \<open>1\<close>, as the rounding to doubles does: such a
  rounding is any function \<open>f\<close> elsewhere.
\<close>

definition keeping_0_1 :: "(real \<Rightarrow> jsnum) \<Rightarrow> real \<Rightarrow> jsnum" where
  "keeping_0_1 f x = (if x = 0 then Num 0 else if x = 1 then Num 1 else f x)"

section \<open>Properties of the arithmetic\<close>

lemmas num_defs = num_add_def num_sub_def num_mul_def num_div_def num_sqrt_def rounded_def jssub_def

lemma rounded_Num: "rounded Num r = r"
  by (cases r) (simp_all add: rounded_def)

lemma representable_rounded: "representable rnd (rounded rnd r)"
proof (cases r)
  case (Num x)
  then show ?thesis by (cases "rnd x") (auto simp: representable_def rounded_def)
qed (simp_all add: representable_def rounded_def)

lemma sign_faithful_Num: "sign_faithful Num"
  by (simp add: sign_faithful_def)

text \<open>With a sign-faithful rounding, \<open>b - a\<close> is positive exactly where \<open>b > a\<close>.\<close>

lemma jsgt_sub_iff:
  assumes "sign_faithful rnd" and "representable rnd a" and "representable rnd b"
    and "a \<noteq> NaN" and "b \<noteq> NaN"
  shows "jsgt (num_sub rnd b a) (Num 0) = jsgt b a"
proof (cases a)
  case a: (Num x)
  show ?thesis
  proof (cases b)
    case b: (Num y)
    from assms(2,3) a b obtain u v where "rnd u = Num x" and "rnd v = Num y"
      by (auto simp: representable_def)
    with assms(1) have "jsgt (rnd (y - x)) (Num 0) = (x < y)"
      unfolding sign_faithful_def by blast
    with a b show ?thesis by (simp add: num_defs)
  qed (use a assms(5) in \<open>simp_all add: num_defs\<close>)
qed (use assms(4,5) in \<open>cases b; simp add: num_defs\<close>)+

lemma jsgt_sub_neq:
  assumes "sign_faithful rnd" and "representable rnd a" and "jsgt (num_sub rnd b a) (Num 0)"
  shows "a \<noteq> b"
proof
  assume "a = b"
  show False
  proof (cases a)
    case (Num x)
    with assms(2) obtain u where "rnd u = Num x" by (auto simp: representable_def)
    with assms(1) have "jsgt (rnd (x - x)) (Num 0) = (x < x)"
      unfolding sign_faithful_def by blast
    moreover have "num_sub rnd (Num x) (Num x) = rnd (x - x)" by (simp add: num_defs)
    ultimately show False using assms(3) \<open>a = b\<close> Num by simp
  qed (use assms(3) \<open>a = b\<close> in \<open>simp_all add: num_defs\<close>)
qed

lemma jsgt_imp_jsge: "jsgt a b \<Longrightarrow> jsge a b"
  by (cases a; cases b) auto

lemma not_jsgt_imp_jsge: "a \<noteq> NaN \<Longrightarrow> b \<noteq> NaN \<Longrightarrow> \<not> jsgt b a \<Longrightarrow> jsge a b"
  by (cases a; cases b) auto

lemma jsge_trans: "jsge a b \<Longrightarrow> jsge b c \<Longrightarrow> jsge a c"
  by (cases a; cases b; cases c) auto

text \<open>With a rounding that keeps zero, a number compared with itself or with NaN is a tie.\<close>

lemma tie_not_gt:
  assumes "rnd 0 = Num 0" and "a = NaN \<or> a = s" and "b = NaN \<or> b = s"
  shows "\<not> jsgt (num_sub rnd b a) (Num 0)"
  using assms by (cases s) (auto simp: num_defs)

section \<open>Properties of the sort\<close>

lemma set_sort_insert: "set (sort_insert cmp x ys) = insert x (set ys)"
  by (induction ys) auto

lemma mset_sort_insert: "mset (sort_insert cmp x ys) = add_mset x (mset ys)"
  by (induction ys) auto

lemma mset_array_sort: "mset (array_sort cmp xs) = mset xs"
  by (induction xs) (auto simp: array_sort_def mset_sort_insert)

lemma set_array_sort: "set (array_sort cmp xs) = set xs"
  using mset_array_sort [of cmp xs] by (metis set_mset_mset)

lemma length_array_sort: "length (array_sort cmp xs) = length xs"
  using mset_array_sort [of cmp xs] by (metis size_mset)

lemma array_sort_Cons: "array_sort cmp (x # xs) = sort_insert cmp x (array_sort cmp xs)"
  by (simp add: array_sort_def)

text \<open>Stability: the elements with one and the same key keep their order.\<close>

lemma filter_sort_insert:
  assumes "sign_faithful rnd" and "representable rnd (key x)"
  shows "filter (\<lambda>r. key r = s) (sort_insert (\<lambda>a b. num_sub rnd (key b) (key a)) x ys) =
         filter (\<lambda>r. key r = s) (x # ys)"
proof (induction ys)
  case Nil
  show ?case by simp
next
  case (Cons y ys)
  show ?case
  proof (cases "jsgt (num_sub rnd (key y) (key x)) (Num 0)")
    case True
    with assms have "key x \<noteq> key y" by (rule jsgt_sub_neq)
    with True Cons show ?thesis by auto
  next
    case False
    then show ?thesis by simp
  qed
qed

lemma filter_array_sort:
  assumes "sign_faithful rnd" and "\<forall>x\<in>set xs. representable rnd (key x)"
  shows "filter (\<lambda>r. key r = s) (array_sort (\<lambda>a b. num_sub rnd (key b) (key a)) xs) =
         filter (\<lambda>r. key r = s) xs"
  using assms(2)
proof (induction xs)
  case Nil
  show ?case by (simp add: array_sort_def)
next
  case (Cons x xs)
  then have "representable rnd (key x)" by simp
  with Cons assms(1) show ?case by (simp add: array_sort_Cons filter_sort_insert)
qed

lemma sorted_sort_insert:
  assumes "sign_faithful rnd"
    and "key x \<noteq> NaN" and "\<forall>y\<in>set ys. key y \<noteq> NaN"
    and "representable rnd (key x)" and "\<forall>y\<in>set ys. representable rnd (key y)"
    and "sorted_wrt (\<lambda>a b. jsge (key a) (key b)) ys"
  shows "sorted_wrt (\<lambda>a b. jsge (key a) (key b)) (sort_insert (\<lambda>a b. num_sub rnd (key b) (key a)) x ys)"
  using assms(3,5,6)
proof (induction ys)
  case Nil
  show ?case by simp
next
  case (Cons y ys)
  have ny: "key y \<noteq> NaN" and ry: "representable rnd (key y)" using Cons.prems by simp_all
  note iff = jsgt_sub_iff [OF assms(1) assms(4) ry assms(2) ny]
  show ?case
  proof (cases "jsgt (num_sub rnd (key y) (key x)) (Num 0)")
    case True
    then have "jsge (key y) (key x)" using iff jsgt_imp_jsge by simp
    moreover have "sorted_wrt (\<lambda>a b. jsge (key a) (key b))
        (sort_insert (\<lambda>a b. num_sub rnd (key b) (key a)) x ys)"
      using Cons by simp
    ultimately show ?thesis using True Cons.prems(3) by (simp add: set_sort_insert)
  next
    case False
    then have xy: "jsge (key x) (key y)"
      using iff not_jsgt_imp_jsge [OF assms(2) ny] by simp
    have "\<forall>z\<in>set ys. jsge (key x) (key z)"
      using xy Cons.prems(3) jsge_trans by auto
    with False xy Cons.prems(3) show ?thesis by simp
  qed
qed

lemma sorted_array_sort:
  assumes "sign_faithful rnd"
    and "\<forall>x\<in>set xs. key x \<noteq> NaN" and "\<forall>x\<in>set xs. representable rnd (key x)"
  shows "sorted_wrt (\<lambda>a b. jsge (key a) (key b)) (array_sort (\<lambda>a b. num_sub rnd (key b) (key a)) xs)"
  using assms(2,3)
proof (induction xs)
  case Nil
  show ?case by (simp add: array_sort_def)
next
  case (Cons x xs)
  show ?case
    unfolding array_sort_Cons
    by (rule sorted_sort_insert [OF assms(1)]) (use Cons in \<open>auto simp: set_array_sort\<close>)
qed

text \<open>Where no comparison asks for a swap, the sort changes nothing.\<close>

lemma sort_insert_tie: "\<forall>y\<in>set ys. \<not> jsgt (cmp x y) (Num 0) \<Longrightarrow> sort_insert cmp x ys = x # ys"
  by (cases ys) auto

lemma array_sort_all_ties:
  "\<forall>x\<in>set xs. \<forall>y\<in>set xs. \<not> jsgt (cmp x y) (Num 0) \<Longrightarrow> array_sort cmp xs = xs"
proof (induction xs)
  case Nil
  show ?case by (simp add: array_sort_def)
next
  case (Cons x xs)
  then have "array_sort cmp xs = xs" by simp
  then have "array_sort cmp (x # xs) = sort_insert cmp x xs" by (simp add: array_sort_Cons)
  also have "\<dots> = x # xs" by (rule sort_insert_tie) (use Cons.prems in simp)
  finally show ?case .
qed

section \<open>Properties of the similarity\<close>

lemma representable_cosineSimilarity: "representable rnd (cosineSimilarity rnd q v)"
  by (simp add: cosineSimilarity_def num_div_def representable_rounded)

lemma num_add_NaN: "num_add rnd NaN b = NaN"
  by (simp add: num_defs)

lemma reduce_idx_NaN:
  "reduce_idx (\<lambda>sum a idx. num_add rnd sum (num_mul rnd (Num a) (elem v idx))) NaN i q = NaN"
  by (induction q arbitrary: i) (auto simp: num_add_NaN)

text \<open>
  The dot product runs over the indices of the first vector. It is NaN when the second
  vector is the shorter one, and it reads no component of the second vector beyond the
  length of the first.
\<close>

lemma reduce_idx_dot_out_of_range:
  "length v < i + length q \<Longrightarrow> q \<noteq> [] \<Longrightarrow>
   reduce_idx (\<lambda>sum a idx. num_add rnd sum (num_mul rnd (Num a) (elem v idx))) s i q = NaN"
proof (induction q arbitrary: i s)
  case Nil
  then show ?case by simp
next
  case (Cons a q)
  show ?case
  proof (cases "Suc i \<le> length v")
    case True
    with Cons.prems have "q \<noteq> []" and "length v < Suc i + length q" by auto
    with Cons.IH show ?thesis by simp
  next
    case False
    then have "elem v i = NaN" by (simp add: elem_def)
    then have "num_add rnd s (num_mul rnd (Num a) (elem v i)) = NaN"
      by (cases s) (simp_all add: num_defs)
    then show ?thesis by (simp add: reduce_idx_NaN)
  qed
qed

lemma dot_product_longer_query:
  assumes "length v < length q"
  shows "dot_product rnd q v = NaN"
proof -
  from assms have "q \<noteq> []" and "length v < 0 + length q" by auto
  then show ?thesis
    unfolding dot_product_def by (intro reduce_idx_dot_out_of_range)
qed

lemma reduce_idx_dot_take:
  "i + length q \<le> m \<Longrightarrow>
   reduce_idx (\<lambda>sum a idx. num_add rnd sum (num_mul rnd (Num a) (elem (take m v) idx))) s i q =
   reduce_idx (\<lambda>sum a idx. num_add rnd sum (num_mul rnd (Num a) (elem v idx))) s i q"
proof (induction q arbitrary: i s)
  case Nil
  show ?case by simp
next
  case (Cons a q)
  then have "i < m" and "Suc i + length q \<le> m" by simp_all
  moreover from \<open>i < m\<close> have "elem (take m v) i = elem v i" by (simp add: elem_def)
  ultimately show ?case using Cons.IH by simp
qed

lemma dot_product_take: "dot_product rnd q (take (length q) v) = dot_product rnd q v"
  using reduce_idx_dot_take [of 0 q "length q" rnd v "Num 0"] by (simp add: dot_product_def)

text \<open>The similarity in closed form, for the rounding that changes nothing.\<close>

lemma reduce_idx_dot_exact:
  "i + length q \<le> length v \<Longrightarrow>
   reduce_idx (\<lambda>sum a idx. num_add Num sum (num_mul Num (Num a) (elem v idx))) (Num s) i q =
   Num (s + (\<Sum>(a, b)\<leftarrow>zip q (drop i v). a * b))"
proof (induction q arbitrary: i s)
  case Nil
  show ?case by simp
next
  case (Cons a q)
  then have lt: "i < length v" and le: "Suc i + length q \<le> length v" by simp_all
  have d: "drop i v = v ! i # drop (Suc i) v" using lt by (simp add: Cons_nth_drop_Suc)
  have e: "elem v i = Num (v ! i)" using lt by (simp add: elem_def)
  have "num_add Num (Num s) (num_mul Num (Num a) (elem v i)) = Num (s + a * v ! i)"
    by (simp add: e num_defs)
  then show ?case using Cons.IH [OF le, of "s + a * v ! i"] by (simp add: d add.assoc)
qed

lemma reduce_squares_exact:
  "reduce (\<lambda>sum a. num_add Num sum (num_mul Num (Num a) (Num a))) (Num s) v = Num (s + (\<Sum>a\<leftarrow>v. a * a))"
proof -
  have "reduce_idx (\<lambda>sum a idx. num_add Num sum (num_mul Num (Num a) (Num a))) (Num s) i v
      = Num (s + (\<Sum>a\<leftarrow>v. a * a))" for i
  proof (induction v arbitrary: i s)
    case Nil
    show ?case by simp
  next
    case (Cons a v)
    have "num_add Num (Num s) (num_mul Num (Num a) (Num a)) = Num (s + a * a)"
      by (simp add: num_defs)
    then show ?case using Cons [of "s + a * a"] by (simp add: add.assoc)
  qed
  then show ?thesis by (simp add: reduce_def)
qed

lemma sum_squares_nonneg: "0 \<le> (\<Sum>a\<leftarrow>v. a * a :: real)"
  by (induction v) auto

lemma magnitude_exact: "magnitude Num v = Num (sqrt (\<Sum>a\<leftarrow>v. a * a))"
  unfolding magnitude_def reduce_squares_exact
  using sum_squares_nonneg [of v] by (simp add: num_defs)

lemma zip_take_left: "zip q (take (length q) v) = zip q v"
proof (induction q arbitrary: v)
  case Nil
  show ?case by simp
next
  case (Cons a q)
  then show ?case by (cases v) simp_all
qed

lemma cosineSimilarity_exact:
  assumes "length q \<le> length v"
  shows "cosineSimilarity Num q v =
     jsdiv (Num (\<Sum>(a, b)\<leftarrow>zip q v. a * b)) (Num (sqrt (\<Sum>a\<leftarrow>q. a * a) * sqrt (\<Sum>b\<leftarrow>v. b * b)))"
proof -
  have "dot_product Num q v = Num (\<Sum>(a, b)\<leftarrow>zip q v. a * b)"
    using reduce_idx_dot_exact [of 0 q v 0] assms by (simp add: dot_product_def)
  then show ?thesis
    by (simp add: cosineSimilarity_def magnitude_exact num_mul_def num_div_def rounded_Num)
qed

text \<open>
  A vector of Euclidean norm zero has zero components only. With a rounding that keeps
  zero, its dot product with any vector is zero or NaN, its magnitude is zero, and the
  similarity is \<open>0 / 0\<close>, or an operation on NaN.
\<close>

lemma sum_squares_zero: "(\<Sum>a\<leftarrow>v. a * a :: real) = 0 \<Longrightarrow> \<forall>a\<in>set v. a = 0"
proof (induction v)
  case Nil
  show ?case by simp
next
  case (Cons a v)
  have "0 \<le> a * a" by simp
  moreover have "0 \<le> (\<Sum>a\<leftarrow>v. a * a)" by (rule sum_squares_nonneg)
  ultimately have "a * a = 0" and "(\<Sum>a\<leftarrow>v. a * a) = 0"
    using Cons.prems by (simp_all add: add_nonneg_eq_0_iff)
  with Cons.IH show ?case by simp
qed

lemma elem_zero_vector: "\<forall>b\<in>set z. b = 0 \<Longrightarrow> elem z i = Num 0 \<or> elem z i = NaN"
  by (simp add: elem_def)

lemma reduce_idx_dot_zero:
  assumes "rnd 0 = Num 0" and "\<forall>b\<in>set z. b = 0" and "s = Num 0 \<or> s = NaN"
  shows "reduce_idx (\<lambda>sum a idx. num_add rnd sum (num_mul rnd (Num a) (elem z idx))) s i q = Num 0
       \<or> reduce_idx (\<lambda>sum a idx. num_add rnd sum (num_mul rnd (Num a) (elem z idx))) s i q = NaN"
  using assms(3)
proof (induction q arbitrary: i s)
  case Nil
  then show ?case by simp
next
  case (Cons a q)
  have "num_add rnd s (num_mul rnd (Num a) (elem z i)) = Num 0
      \<or> num_add rnd s (num_mul rnd (Num a) (elem z i)) = NaN"
    using Cons.prems elem_zero_vector [OF assms(2), of i] assms(1) by (auto simp: num_defs)
  from Cons.IH [OF this] show ?case by simp
qed

lemma reduce_idx_squares_zero:
  assumes "rnd 0 = Num 0" and "\<forall>b\<in>set z. b = 0"
  shows "reduce_idx (\<lambda>sum a idx. num_add rnd sum (num_mul rnd (Num a) (Num a))) (Num 0) i z = Num 0"
  using assms(2)
proof (induction z arbitrary: i)
  case Nil
  show ?case by simp
next
  case (Cons a z)
  then have "a = 0" by simp
  then have "num_add rnd (Num 0) (num_mul rnd (Num a) (Num a)) = Num 0"
    using assms(1) by (simp add: num_defs)
  with Cons show ?case by simp
qed

lemma magnitude_zero:
  assumes "rnd 0 = Num 0" and "\<forall>b\<in>set z. b = 0"
  shows "magnitude rnd z = Num 0"
  using reduce_idx_squares_zero [where rnd = rnd and z = z, OF assms] assms(1)
  by (simp add: magnitude_def reduce_def num_sqrt_def rounded_def)

lemma cosineSimilarity_zero_norm:
  assumes "rnd 0 = Num 0" and "sqrt (\<Sum>b\<leftarrow>z. b * b) = 0"
  shows "cosineSimilarity rnd q z = NaN"
proof -
  have "(\<Sum>b\<leftarrow>z. b * b) = 0" using assms(2) by simp
  then have zero: "\<forall>b\<in>set z. b = 0" by (rule sum_squares_zero)
  have dot: "dot_product rnd q z = Num 0 \<or> dot_product rnd q z = NaN"
    unfolding dot_product_def
    by (rule reduce_idx_dot_zero [where rnd = rnd and z = z, OF assms(1) zero]) simp
  have "num_mul rnd (magnitude rnd q) (Num 0) = Num 0 \<or> num_mul rnd (magnitude rnd q) (Num 0) = NaN"
    using assms(1) by (cases "magnitude rnd q") (simp_all add: num_defs)
  with dot show ?thesis
    by (auto simp: cosineSimilarity_def magnitude_zero [where rnd = rnd and z = z, OF assms(1) zero]
        num_div_def rounded_def)
qed

section \<open>Properties of the search\<close>

lemma representable_sim: "representable rnd (sim rnd q d)"
  by (cases "embedding d") (simp_all add: sim_def representable_cosineSimilarity, simp add: representable_def)

lemma map_throwing_similarity:
  assumes "\<forall>d\<in>set documents. embedding d \<noteq> None"
  shows "map_throwing (similarity rnd q) documents =
         Inr (map (\<lambda>d. \<lparr>doc = d, score = sim rnd q d\<rparr>) documents)"
  using assms by (induction documents) (auto simp: similarity_def sim_def)

lemma getTopKDocuments_ranked:
  assumes "\<forall>d\<in>set documents. embedding d \<noteq> None"
  shows "getTopKDocuments rnd q documents k =
     Inr (take k (map doc (array_sort (\<lambda>a b. num_sub rnd (score b) (score a))
                             (map (\<lambda>d. \<lparr>doc = d, score = sim rnd q d\<rparr>) documents))))"
  by (simp add: getTopKDocuments_def map_throwing_similarity [OF assms] take_map)

lemma scored_inv:
  "r \<in> set (array_sort cmp (map (\<lambda>d. \<lparr>doc = d, score = sim rnd q d\<rparr>) documents))
   \<Longrightarrow> score r = sim rnd q (doc r)"
  by (auto simp: set_array_sort)

lemma mset_ranked:
  "mset (map doc (array_sort cmp (map (\<lambda>d. \<lparr>doc = d, score = sim rnd q d\<rparr>) documents))) = mset documents"
proof -
  let ?ss = "map (\<lambda>d. \<lparr>doc = d, score = sim rnd q d\<rparr>) documents"
  have "mset (map doc (array_sort cmp ?ss)) = image_mset doc (mset (array_sort cmp ?ss))"
    by (rule mset_map)
  also have "\<dots> = image_mset doc (mset ?ss)" by (simp only: mset_array_sort)
  also have "\<dots> = mset (map doc ?ss)" by (rule mset_map [symmetric])
  also have "map doc ?ss = documents" by (simp add: comp_def)
  finally show ?thesis .
qed

lemma filter_ranked:
  assumes "sign_faithful rnd"
  shows "filter (\<lambda>d. sim rnd q d = s)
     (map doc (array_sort (\<lambda>a b. num_sub rnd (score b) (score a))
                 (map (\<lambda>d. \<lparr>doc = d, score = sim rnd q d\<rparr>) documents))) =
   filter (\<lambda>d. sim rnd q d = s) documents"
proof -
  let ?ss = "map (\<lambda>d. \<lparr>doc = d, score = sim rnd q d\<rparr>) documents"
  let ?ys = "array_sort (\<lambda>a b. num_sub rnd (score b) (score a)) ?ss"
  have rep: "\<forall>x\<in>set ?ss. representable rnd (score x)" by (simp add: representable_sim)
  have "filter (\<lambda>d. sim rnd q d = s) (map doc ?ys) = map doc (filter (\<lambda>r. sim rnd q (doc r) = s) ?ys)"
    by (simp add: filter_map comp_def)
  also have "filter (\<lambda>r. sim rnd q (doc r) = s) ?ys = filter (\<lambda>r. score r = s) ?ys"
    by (rule filter_cong) (auto simp: scored_inv)
  also have "\<dots> = filter (\<lambda>r. score r = s) ?ss"
    using assms rep by (rule filter_array_sort)
  also have "map doc \<dots> = filter (\<lambda>d. sim rnd q d = s) documents"
    by (simp add: filter_map comp_def)
  finally show ?thesis .
qed

lemma sorted_ranked:
  assumes "sign_faithful rnd" and "\<forall>d\<in>set documents. sim rnd q d \<noteq> NaN"
  shows "sorted_wrt (\<lambda>a b. jsge (sim rnd q a) (sim rnd q b))
           (map doc (array_sort (\<lambda>a b. num_sub rnd (score b) (score a))
                       (map (\<lambda>d. \<lparr>doc = d, score = sim rnd q d\<rparr>) documents)))"
proof -
  let ?ss = "map (\<lambda>d. \<lparr>doc = d, score = sim rnd q d\<rparr>) documents"
  let ?ys = "array_sort (\<lambda>a b. num_sub rnd (score b) (score a)) ?ss"
  have "sorted_wrt (\<lambda>a b. jsge (score a) (score b)) ?ys"
    by (rule sorted_array_sort [OF assms(1)]) (use assms(2) in \<open>auto simp: representable_sim\<close>)
  then have "sorted_wrt (\<lambda>a b. jsge (sim rnd q (doc a)) (sim rnd q (doc b))) ?ys"
    by (rule sorted_wrt_mono_rel [rotated]) (simp add: scored_inv)
  then show ?thesis by (simp add: sorted_wrt_map)
qed

lemma getTopKDocuments_all_ties:
  assumes "rnd 0 = Num 0"
    and "\<forall>d\<in>set documents. embedding d \<noteq> None"
    and "\<forall>d\<in>set documents. sim rnd q d = NaN \<or> sim rnd q d = s"
  shows "getTopKDocuments rnd q documents k = Inr (take k documents)"
proof -
  let ?ss = "map (\<lambda>d. \<lparr>doc = d, score = sim rnd q d\<rparr>) documents"
  have "\<not> jsgt (num_sub rnd (sim rnd q y) (sim rnd q x)) (Num 0)"
    if "x \<in> set documents" and "y \<in> set documents" for x y
    using that assms(3) by (intro tie_not_gt [where rnd = rnd and s = s, OF assms(1)]) auto
  then have "array_sort (\<lambda>a b. num_sub rnd (score b) (score a)) ?ss = ?ss"
    by (intro array_sort_all_ties) auto
  then show ?thesis
    by (simp add: getTopKDocuments_ranked [OF assms(2)] comp_def)
qed

section \<open>The claims about the search\<close>

lemmas search_defs = getTopKDocuments_def similarity_def sim_def cosineSimilarity_def dot_product_def
  magnitude_def reduce_def elem_def array_sort_def

text \<open>
  C1 (as amended). Let the rounding of the number format be sign-faithful, as the
  rounding to doubles is. For every query vector, every corpus whose documents all have
  an embedding with a computed similarity to the query that is a number (not NaN), and
  every \<open>k\<close>: \<open>getTopKDocuments\<close> returns the first \<open>k\<close> documents of the full
  ranking, so \<open>min k (corpus size)\<close> documents; the ranking is a rearrangement of the
  corpus in descending computed similarity; and the documents of one and the same
  computed similarity stand in it in their corpus order. For the corpus with the
  embeddings \<open>[1,0]\<close>, \<open>[0,1]\<close>, \<open>[1,0]\<close>, the query \<open>[1,0]\<close> and \<open>k = 2\<close>, where
  the arithmetic is on \<open>0\<close> and \<open>1\<close> and rounds nothing, the result is the first and
  the third document, in this order.
\<close>

theorem getTopKDocuments_sorted_stable:
  assumes "sign_faithful rnd"
    and "\<forall>d\<in>set documents. \<exists>v. embedding d = Some v \<and> cosineSimilarity rnd q v \<noteq> NaN"
  shows "(\<exists>top ranking.
            getTopKDocuments rnd q documents k = Inr top
          \<and> getTopKDocuments rnd q documents (length documents) = Inr ranking
          \<and> length top = min k (length documents)
          \<and> top = take k ranking
          \<and> mset ranking = mset documents
          \<and> sorted_wrt (\<lambda>a b. jsge (sim rnd q a) (sim rnd q b)) ranking
          \<and> sorted_wrt (\<lambda>a b. jsge (sim rnd q a) (sim rnd q b)) top
          \<and> (\<forall>s. filter (\<lambda>d. sim rnd q d = s) ranking = filter (\<lambda>d. sim rnd q d = s) documents))
       \<and> (rnd 0 = Num 0 \<and> rnd 1 = Num 1 \<longrightarrow>
            getTopKDocuments rnd [1, 0]
              [\<lparr>doc_id = i1, data = d1, embedding = Some [1, 0]\<rparr>,
               \<lparr>doc_id = i2, data = d2, embedding = Some [0, 1]\<rparr>,
               \<lparr>doc_id = i3, data = d3, embedding = Some [1, 0]\<rparr>] 2
            = Inr [\<lparr>doc_id = i1, data = d1, embedding = Some [1, 0]\<rparr>,
                   \<lparr>doc_id = i3, data = d3, embedding = Some [1, 0]\<rparr>])"
proof (intro conjI impI)
  let ?ranking = "map doc (array_sort (\<lambda>a b. num_sub rnd (score b) (score a))
                             (map (\<lambda>d. \<lparr>doc = d, score = sim rnd q d\<rparr>) documents))"
  have emb: "\<forall>d\<in>set documents. embedding d \<noteq> None" using assms(2) by auto
  have num: "\<forall>d\<in>set documents. sim rnd q d \<noteq> NaN" using assms(2) by (auto simp: sim_def)
  have len: "length ?ranking = length documents" by (simp add: length_array_sort)
  have sorted: "sorted_wrt (\<lambda>a b. jsge (sim rnd q a) (sim rnd q b)) ?ranking"
    using assms(1) num by (rule sorted_ranked)
  have "getTopKDocuments rnd q documents k = Inr (take k ?ranking)"
    by (rule getTopKDocuments_ranked [OF emb])
  moreover have "getTopKDocuments rnd q documents (length documents) = Inr ?ranking"
    using getTopKDocuments_ranked [OF emb, of rnd q "length documents"] len by simp
  moreover have "length (take k ?ranking) = min k (length documents)"
    using len by simp
  moreover have "mset ?ranking = mset documents" by (rule mset_ranked)
  moreover have "sorted_wrt (\<lambda>a b. jsge (sim rnd q a) (sim rnd q b)) (take k ?ranking)"
    using sorted by (rule sorted_wrt_take)
  moreover have "\<forall>s. filter (\<lambda>d. sim rnd q d = s) ?ranking = filter (\<lambda>d. sim rnd q d = s) documents"
    using assms(1) by (simp add: filter_ranked)
  ultimately show "\<exists>top ranking.
            getTopKDocuments rnd q documents k = Inr top
          \<and> getTopKDocuments rnd q documents (length documents) = Inr ranking
          \<and> length top = min k (length documents)
          \<and> top = take k ranking
          \<and> mset ranking = mset documents
          \<and> sorted_wrt (\<lambda>a b. jsge (sim rnd q a) (sim rnd q b)) ranking
          \<and> sorted_wrt (\<lambda>a b. jsge (sim rnd q a) (sim rnd q b)) top
          \<and> (\<forall>s. filter (\<lambda>d. sim rnd q d = s) ranking = filter (\<lambda>d. sim rnd q d = s) documents)"
    using sorted by blast
next
  assume r: "rnd 0 = Num 0 \<and> rnd 1 = Num 1"
  with assms(1) have "jsgt (rnd (0 - 1)) (Num 0) = ((1::real) < 0)"
    unfolding sign_faithful_def by blast
  then have m: "\<not> jsgt (rnd (- 1)) (Num 0)" by simp
  show "getTopKDocuments rnd [1, 0]
              [\<lparr>doc_id = i1, data = d1, embedding = Some [1, 0]\<rparr>,
               \<lparr>doc_id = i2, data = d2, embedding = Some [0, 1]\<rparr>,
               \<lparr>doc_id = i3, data = d3, embedding = Some [1, 0]\<rparr>] 2
            = Inr [\<lparr>doc_id = i1, data = d1, embedding = Some [1, 0]\<rparr>,
                   \<lparr>doc_id = i3, data = d3, embedding = Some [1, 0]\<rparr>]"
    using r m by (simp add: search_defs num_defs)
qed

theorem getTopKDocuments_sorted_stable_witness:
  "sign_faithful Num
   \<and> list_all (\<lambda>d. \<exists>v. embedding d = Some v \<and> cosineSimilarity Num [1, 0] v \<noteq> NaN)
       [\<lparr>doc_id = ''a'', data = \<lparr>title = None, snippet = None\<rparr>, embedding = Some [0, 1]\<rparr>,
        \<lparr>doc_id = ''b'', data = \<lparr>title = None, snippet = None\<rparr>, embedding = Some [1, 0]\<rparr>]
   \<and> (\<exists>top. getTopKDocuments Num [1, 0]
               [\<lparr>doc_id = ''a'', data = \<lparr>title = None, snippet = None\<rparr>, embedding = Some [0, 1]\<rparr>,
                \<lparr>doc_id = ''b'', data = \<lparr>title = None, snippet = None\<rparr>, embedding = Some [1, 0]\<rparr>] 1 = Inr top
            \<and> length top = 1
            \<and> sorted_wrt (\<lambda>a b. jsge (sim Num [1, 0] a) (sim Num [1, 0] b)) top)
   \<and> getTopKDocuments Num [1, 0]
        [\<lparr>doc_id = ''a'', data = \<lparr>title = None, snippet = None\<rparr>, embedding = Some [1, 0]\<rparr>,
         \<lparr>doc_id = ''b'', data = \<lparr>title = None, snippet = None\<rparr>, embedding = Some [0, 1]\<rparr>,
         \<lparr>doc_id = ''c'', data = \<lparr>title = None, snippet = None\<rparr>, embedding = Some [1, 0]\<rparr>] 2
      = Inr [\<lparr>doc_id = ''a'', data = \<lparr>title = None, snippet = None\<rparr>, embedding = Some [1, 0]\<rparr>,
             \<lparr>doc_id = ''c'', data = \<lparr>title = None, snippet = None\<rparr>, embedding = Some [1, 0]\<rparr>]"
proof -
  let ?docs = "[\<lparr>doc_id = ''a'', data = \<lparr>title = None, snippet = None\<rparr>, embedding = Some [0, 1]\<rparr>,
                \<lparr>doc_id = ''b'', data = \<lparr>title = None, snippet = None\<rparr>, embedding = Some [1, 0]\<rparr>]"
  have h: "\<forall>d\<in>set ?docs. \<exists>v. embedding d = Some v \<and> cosineSimilarity Num [1, 0] v \<noteq> NaN"
    by (simp add: search_defs num_defs)
  note t = getTopKDocuments_sorted_stable [OF sign_faithful_Num h]
  from t [of 1, THEN conjunct1]
  obtain top where "getTopKDocuments Num [1, 0] ?docs 1 = Inr top"
    and "length top = min 1 (length ?docs)"
    and "sorted_wrt (\<lambda>a b. jsge (sim Num [1, 0] a) (sim Num [1, 0] b)) top"
    by blast
  then have "\<exists>top. getTopKDocuments Num [1, 0] ?docs 1 = Inr top \<and> length top = 1
      \<and> sorted_wrt (\<lambda>a b. jsge (sim Num [1, 0] a) (sim Num [1, 0] b)) top"
    by simp
  moreover have "list_all (\<lambda>d. \<exists>v. embedding d = Some v \<and> cosineSimilarity Num [1, 0] v \<noteq> NaN) ?docs"
    using h by (simp only: list_all_iff)
  moreover from t [THEN conjunct2]
  have "getTopKDocuments Num [1, 0]
        [\<lparr>doc_id = ''a'', data = \<lparr>title = None, snippet = None\<rparr>, embedding = Some [1, 0]\<rparr>,
         \<lparr>doc_id = ''b'', data = \<lparr>title = None, snippet = None\<rparr>, embedding = Some [0, 1]\<rparr>,
         \<lparr>doc_id = ''c'', data = \<lparr>title = None, snippet = None\<rparr>, embedding = Some [1, 0]\<rparr>] 2
      = Inr [\<lparr>doc_id = ''a'', data = \<lparr>title = None, snippet = None\<rparr>, embedding = Some [1, 0]\<rparr>,
             \<lparr>doc_id = ''c'', data = \<lparr>title = None, snippet = None\<rparr>, embedding = Some [1, 0]\<rparr>]"
    by simp
  ultimately show ?thesis using sign_faithful_Num by blast
qed

theorem getTopKDocuments_unsorted_counterexample:
  "\<forall>f.
     getTopKDocuments (keeping_0_1 f) [1, 0]
       [\<lparr>doc_id = ''z'', data = \<lparr>title = None, snippet = None\<rparr>, embedding = Some [0, 0]\<rparr>,
        \<lparr>doc_id = ''u'', data = \<lparr>title = None, snippet = None\<rparr>, embedding = Some [1, 0]\<rparr>] 2
     = Inr [\<lparr>doc_id = ''z'', data = \<lparr>title = None, snippet = None\<rparr>, embedding = Some [0, 0]\<rparr>,
            \<lparr>doc_id = ''u'', data = \<lparr>title = None, snippet = None\<rparr>, embedding = Some [1, 0]\<rparr>]
     \<and> cosineSimilarity (keeping_0_1 f) [1, 0] [0, 0] = NaN
     \<and> cosineSimilarity (keeping_0_1 f) [1, 0] [1, 0] = Num 1
     \<and> \<not> sorted_wrt (\<lambda>a b. jsge (sim (keeping_0_1 f) [1, 0] a) (sim (keeping_0_1 f) [1, 0] b))
           [\<lparr>doc_id = ''z'', data = \<lparr>title = None, snippet = None\<rparr>, embedding = Some [0, 0]\<rparr>,
            \<lparr>doc_id = ''u'', data = \<lparr>title = None, snippet = None\<rparr>, embedding = Some [1, 0]\<rparr>]"
  by (simp add: search_defs num_defs keeping_0_1_def)

text \<open>
  C4 (as amended). Let the rounding keep zero, as the rounding to doubles does. For
  every corpus whose documents all have an embedding and that contains a document with
  an embedding of Euclidean norm exactly zero, every query and every \<open>k\<close>: the computed
  similarity of that document is NaN and the search raises no error, it returns
  \<open>min k (corpus size)\<close> documents. Every comparison with the document is a tie, in
  both directions, and where all the other documents have one and the same computed
  similarity the search returns the first \<open>k\<close> documents of the corpus as they stand:
  the zero-norm document keeps its corpus position, whatever that is.
\<close>

theorem zero_norm_document_is_a_tie:
  assumes "rnd 0 = Num 0"
    and "d \<in> set documents" and "embedding d = Some z" and "sqrt (\<Sum>b\<leftarrow>z. b * b) = 0"
    and "\<forall>e\<in>set documents. embedding e \<noteq> None"
  shows "cosineSimilarity rnd q z = NaN
       \<and> sim rnd q d = NaN
       \<and> (\<forall>x. \<not> jsgt (num_sub rnd x (sim rnd q d)) (Num 0)
              \<and> \<not> jsgt (num_sub rnd (sim rnd q d) x) (Num 0))
       \<and> (\<exists>top. getTopKDocuments rnd q documents k = Inr top \<and> length top = min k (length documents))
       \<and> ((\<forall>e\<in>set documents. sim rnd q e = NaN \<or> sim rnd q e = s) \<longrightarrow>
            getTopKDocuments rnd q documents k = Inr (take k documents))"
proof (intro conjI impI)
  show nan: "cosineSimilarity rnd q z = NaN"
    using assms(1,4) by (rule cosineSimilarity_zero_norm)
  then show s: "sim rnd q d = NaN"
    using assms(3) by (simp add: sim_def)
  show "\<forall>x. \<not> jsgt (num_sub rnd x (sim rnd q d)) (Num 0)
          \<and> \<not> jsgt (num_sub rnd (sim rnd q d) x) (Num 0)"
  proof
    fix x
    show "\<not> jsgt (num_sub rnd x (sim rnd q d)) (Num 0)
          \<and> \<not> jsgt (num_sub rnd (sim rnd q d) x) (Num 0)"
      unfolding s by (cases x) (simp_all add: num_defs)
  qed
  show "\<exists>top. getTopKDocuments rnd q documents k = Inr top \<and> length top = min k (length documents)"
    by (simp add: getTopKDocuments_ranked [OF assms(5)] length_array_sort)
  show "getTopKDocuments rnd q documents k = Inr (take k documents)"
    if "\<forall>e\<in>set documents. sim rnd q e = NaN \<or> sim rnd q e = s"
    using assms(1,5) that by (rule getTopKDocuments_all_ties)
qed

theorem zero_norm_document_is_a_tie_witness:
  "Num 0 = Num 0
   \<and> sqrt (\<Sum>b\<leftarrow>[0, 0 :: real]. b * b) = 0
   \<and> cosineSimilarity Num [1, 0] [0, 0] = NaN
   \<and> getTopKDocuments Num [1, 0]
        [\<lparr>doc_id = ''u'', data = \<lparr>title = None, snippet = None\<rparr>, embedding = Some [1, 0]\<rparr>,
         \<lparr>doc_id = ''z'', data = \<lparr>title = None, snippet = None\<rparr>, embedding = Some [0, 0]\<rparr>,
         \<lparr>doc_id = ''v'', data = \<lparr>title = None, snippet = None\<rparr>, embedding = Some [2, 0]\<rparr>] 2
      = Inr [\<lparr>doc_id = ''u'', data = \<lparr>title = None, snippet = None\<rparr>, embedding = Some [1, 0]\<rparr>,
             \<lparr>doc_id = ''z'', data = \<lparr>title = None, snippet = None\<rparr>, embedding = Some [0, 0]\<rparr>]"
proof -
  let ?u = "\<lparr>doc_id = ''u'', data = \<lparr>title = None, snippet = None\<rparr>, embedding = Some [1, 0]\<rparr>"
  let ?z = "\<lparr>doc_id = ''z'', data = \<lparr>title = None, snippet = None\<rparr>, embedding = Some [0, 0]\<rparr>"
  let ?v = "\<lparr>doc_id = ''v'', data = \<lparr>title = None, snippet = None\<rparr>, embedding = Some [2, 0]\<rparr>"
  have 0: "Num 0 = Num 0" by simp
  have 1: "?z \<in> set [?u, ?z, ?v]" by simp
  have 2: "embedding ?z = Some [0, 0]" by simp
  have 3: "sqrt (\<Sum>b\<leftarrow>[0, 0 :: real]. b * b) = 0" by simp
  have 4: "\<forall>e\<in>set [?u, ?z, ?v]. embedding e \<noteq> None" by simp
  have 5: "\<forall>e\<in>set [?u, ?z, ?v]. sim Num [1, 0] e = NaN \<or> sim Num [1, 0] e = Num 1"
    by (simp add: search_defs num_defs)
  from zero_norm_document_is_a_tie [where rnd = Num, OF 0 1 2 3 4, of "[1, 0]" 2 "Num 1"] 5
  have "cosineSimilarity Num [1, 0] [0, 0] = NaN"
    and "getTopKDocuments Num [1, 0] [?u, ?z, ?v] 2 = Inr (take 2 [?u, ?z, ?v])"
    by blast+
  with 3 show ?thesis by simp
qed

theorem zero_norm_document_first_counterexample:
  "\<forall>f.
     sqrt (\<Sum>b\<leftarrow>[0, 0 :: real]. b * b) = 0
     \<and> cosineSimilarity (keeping_0_1 f) [1, 0] [0, 0] = NaN
     \<and> cosineSimilarity (keeping_0_1 f) [1, 0] [1, 0] = Num 1
     \<and> getTopKDocuments (keeping_0_1 f) [1, 0]
          [\<lparr>doc_id = ''z'', data = \<lparr>title = None, snippet = None\<rparr>, embedding = Some [0, 0]\<rparr>,
           \<lparr>doc_id = ''u'', data = \<lparr>title = None, snippet = None\<rparr>, embedding = Some [1, 0]\<rparr>] 1
        = Inr [\<lparr>doc_id = ''z'', data = \<lparr>title = None, snippet = None\<rparr>, embedding = Some [0, 0]\<rparr>]"
  by (simp add: search_defs num_defs keeping_0_1_def)

text \<open>
  C7 (as amended). For every query whose length differs from the length of a document's
  embedding, the similarity computation reports no error. A query that is the shorter
  one is compared silently: the dot product takes only the first components of the
  embedding, as many as the query has, while the norm takes all of them. A query that is
  the longer one gives the similarity NaN. In both cases the search returns a ranking of
  \<open>min k (corpus size)\<close> documents, as long as every document has an embedding. This
  holds for every rounding; for the rounding that changes nothing, the similarity of a
  shorter query is given in closed form.
\<close>

theorem dimension_mismatch_is_not_reported:
  "(length q < length v \<longrightarrow>
      cosineSimilarity Num q v =
        jsdiv (Num (\<Sum>(a, b)\<leftarrow>zip q (take (length q) v). a * b))
              (Num (sqrt (\<Sum>a\<leftarrow>q. a * a) * sqrt (\<Sum>b\<leftarrow>v. b * b))))
   \<and> (length q < length v \<longrightarrow>
        cosineSimilarity rnd q v =
          num_div rnd (dot_product rnd q (take (length q) v))
                      (num_mul rnd (magnitude rnd q) (magnitude rnd v)))
   \<and> (length v < length q \<longrightarrow> cosineSimilarity rnd q v = NaN)
   \<and> ((\<forall>d\<in>set documents. embedding d \<noteq> None) \<longrightarrow>
        (\<exists>top. getTopKDocuments rnd q documents k = Inr top \<and> length top = min k (length documents)))"
proof (intro conjI impI)
  assume "length q < length v"
  then show "cosineSimilarity Num q v =
        jsdiv (Num (\<Sum>(a, b)\<leftarrow>zip q (take (length q) v). a * b))
              (Num (sqrt (\<Sum>a\<leftarrow>q. a * a) * sqrt (\<Sum>b\<leftarrow>v. b * b)))"
    by (simp add: cosineSimilarity_exact zip_take_left)
next
  show "cosineSimilarity rnd q v =
          num_div rnd (dot_product rnd q (take (length q) v))
                      (num_mul rnd (magnitude rnd q) (magnitude rnd v))"
    by (simp add: cosineSimilarity_def dot_product_take)
next
  assume "length v < length q"
  then have "dot_product rnd q v = NaN" by (rule dot_product_longer_query)
  then show "cosineSimilarity rnd q v = NaN"
    by (simp add: cosineSimilarity_def num_div_def rounded_def)
next
  assume "\<forall>d\<in>set documents. embedding d \<noteq> None"
  then show "\<exists>top. getTopKDocuments rnd q documents k = Inr top \<and> length top = min k (length documents)"
    by (simp add: getTopKDocuments_ranked length_array_sort)
qed

theorem dimension_mismatch_is_not_reported_witness:
  "length [3 :: real] < length [1, 5 :: real]
   \<and> cosineSimilarity Num [3] [1, 5] = Num (3 / (sqrt 9 * sqrt 26))
   \<and> length [1 :: real] < length [1, 0 :: real]
   \<and> cosineSimilarity Num [1, 0] [1] = NaN
   \<and> (\<exists>top. getTopKDocuments Num [3]
               [\<lparr>doc_id = ''a'', data = \<lparr>title = None, snippet = None\<rparr>, embedding = Some [1, 5]\<rparr>] 10 = Inr top
            \<and> length top = 1)"
proof -
  let ?docs = "[\<lparr>doc_id = ''a'', data = \<lparr>title = None, snippet = None\<rparr>, embedding = Some [1, 5]\<rparr>]"
  have h: "\<forall>d\<in>set ?docs. embedding d \<noteq> None" by simp
  note t = dimension_mismatch_is_not_reported
  from t [where q = "[3]" and v = "[1, 5]", THEN conjunct1] have "cosineSimilarity Num [3] [1, 5] = Num (3 / (sqrt 9 * sqrt 26))"
    by simp
  moreover from t [where q = "[1, 0]" and v = "[1]" and rnd = Num, THEN conjunct2, THEN conjunct2, THEN conjunct1] have "cosineSimilarity Num [1, 0] [1] = NaN"
    by simp
  moreover from t [where q = "[3]" and documents = ?docs and k = 10 and rnd = Num,
      THEN conjunct2, THEN conjunct2, THEN conjunct2] h
  have "\<exists>top. getTopKDocuments Num [3] ?docs 10 = Inr top \<and> length top = 1"
    by simp
  ultimately show ?thesis by simp
qed

theorem dimension_mismatch_counterexample:
  "\<forall>f.
     length [1 :: real] \<noteq> length [1, 0 :: real]
     \<and> cosineSimilarity (keeping_0_1 f) [1] [1, 0] = Num 1
     \<and> getTopKDocuments (keeping_0_1 f) [1]
          [\<lparr>doc_id = ''a'', data = \<lparr>title = None, snippet = None\<rparr>, embedding = Some [0, 1]\<rparr>,
           \<lparr>doc_id = ''b'', data = \<lparr>title = None, snippet = None\<rparr>, embedding = Some [1, 0]\<rparr>] 10
        = Inr [\<lparr>doc_id = ''b'', data = \<lparr>title = None, snippet = None\<rparr>, embedding = Some [1, 0]\<rparr>,
               \<lparr>doc_id = ''a'', data = \<lparr>title = None, snippet = None\<rparr>, embedding = Some [0, 1]\<rparr>]"
  by (simp add: search_defs num_defs keeping_0_1_def)

section \<open>Properties of the corpus build\<close>

text \<open>Reading the source files prints to the console and changes nothing else.\<close>

lemma load_files_frame:
  "load_files n fs documents w = (documents', w') \<Longrightarrow>
     source_files w' = source_files w \<and> embeddings_file w' = embeddings_file w
   \<and> disk_writable w' = disk_writable w \<and> cachedDocuments w' = cachedDocuments w
   \<and> embed_calls w' = embed_calls w \<and> chat_calls w' = chat_calls w \<and> slept w' = slept w"
proof (induction fs arbitrary: documents w)
  case Nil
  then show ?case by simp
next
  case (Cons f rest)
  show ?case
  proof (cases "source_files w f")
    case (Parsed json)
    obtain ds err where nz: "normalize n f json documents = (ds, err)"
      by (cases "normalize n f json documents")
    show ?thesis
    proof (cases err)
      case None
      with Cons.prems Parsed nz have "load_files n rest ds w = (documents', w')" by simp
      then show ?thesis by (rule Cons.IH)
    next
      case (Some e)
      with Cons.prems Parsed nz
      have "load_files n rest ds (print (Error (''Error reading '' @ f @ '':'')) w) = (documents', w')"
        by simp
      from Cons.IH [OF this] show ?thesis by (simp add: print_def)
    qed
  next
    case Unreadable
    with Cons.prems
    have "load_files n rest documents (print (Error (''Error reading '' @ f @ '':'')) w) = (documents', w')"
      by simp
    from Cons.IH [OF this] show ?thesis by (simp add: print_def)
  next
    case Unparsable
    with Cons.prems
    have "load_files n rest documents (print (Error (''Error reading '' @ f @ '':'')) w) = (documents', w')"
      by simp
    from Cons.IH [OF this] show ?thesis by (simp add: print_def)
  qed
qed

text \<open>The documents that are read depend on the source files only.\<close>

lemma load_files_documents:
  "source_files w = source_files v \<Longrightarrow> fst (load_files n fs documents w) = fst (load_files n fs documents v)"
proof (induction fs arbitrary: documents w v)
  case Nil
  show ?case by simp
next
  case (Cons f rest)
  have p: "source_files (print e w) = source_files (print e' v)" for e e'
    using Cons.prems by (simp add: print_def)
  show ?case
  proof (cases "source_files v f")
    case (Parsed json)
    obtain ds err where nz: "normalize n f json documents = (ds, err)"
      by (cases "normalize n f json documents")
    show ?thesis
      using Parsed Cons.prems nz Cons.IH [OF Cons.prems] Cons.IH [OF p]
      by (cases err) simp_all
  next
    case Unreadable
    then show ?thesis using Cons.prems Cons.IH [OF p] by simp
  next
    case Unparsable
    then show ?thesis using Cons.prems Cons.IH [OF p] by simp
  qed
qed

lemma loadDocuments_frame:
  assumes "loadDocuments env w = (documents, w')"
  shows "source_files w' = source_files w \<and> embeddings_file w' = embeddings_file w
   \<and> disk_writable w' = disk_writable w \<and> cachedDocuments w' = cachedDocuments w
   \<and> embed_calls w' = embed_calls w \<and> chat_calls w' = chat_calls w \<and> slept w' = slept w"
proof -
  obtain ds w1 where lf: "load_files (numberToString env) files [] w = (ds, w1)"
    by (cases "load_files (numberToString env) files [] w")
  with assms have "w' = print (Log (''Loaded '' @ show_nat (length ds) @ '' documents'')) w1"
    by (auto simp: loadDocuments_def)
  with load_files_frame [OF lf] show ?thesis by (simp add: print_def)
qed

lemma loadDocuments_documents:
  "source_files w = source_files v \<Longrightarrow> fst (loadDocuments env w) = fst (loadDocuments env v)"
  using load_files_documents [of w v "numberToString env" files "[]"]
  by (cases "load_files (numberToString env) files [] w"; cases "load_files (numberToString env) files [] v")
     (simp add: loadDocuments_def)

text \<open>The number of batches that remain from index \<open>i\<close> on.\<close>

lemma batches_step:
  assumes "0 < bs" and "i < (n::nat)"
  shows "(n - i + bs - 1) div bs = Suc ((n - (i + bs) + bs - 1) div bs)"
proof (cases "bs \<le> n - i")
  case True
  define m where "m = n - (i + bs) + bs - 1"
  have "n - i + bs - 1 = m + bs" using True assms by (simp add: m_def)
  moreover have "(m + bs) div bs = Suc (m div bs)" using assms(1) by simp
  ultimately show ?thesis by (simp add: m_def)
next
  case False
  define m where "m = n - i - 1"
  have eq: "n - i + bs - 1 = m + bs" and lt: "m < bs" using False assms by (simp_all add: m_def)
  have "(m + bs) div bs = Suc (m div bs)" using assms(1) by simp
  also have "m div bs = 0" using lt by simp
  finally have l: "(n - i + bs - 1) div bs = Suc 0" unfolding eq .
  have "n - (i + bs) + bs - 1 = bs - 1" using False by simp
  moreover have "(bs - 1) div bs = 0" using assms(1) by simp
  ultimately have "(n - (i + bs) + bs - 1) div bs = 0" by (simp only:)
  with l show ?thesis by (simp only:)
qed

lemma ceiling_div_96: "nat \<lceil>real n / 96\<rceil> = (n + 95) div 96"
proof -
  have "\<lceil>real_of_int (int n) / real_of_int 96\<rceil> = - (- int n div 96)"
    by (rule ceiling_divide_eq_div)
  then have "\<lceil>real n / 96\<rceil> = - (- int n div 96)" by simp
  also have "\<dots> = (int n + 95) div 96" by linarith
  also have "\<dots> = int ((n + 95) div 96)" by (simp add: zdiv_int)
  finally show ?thesis by simp
qed

text \<open>
  The loop with a positive batch size and a provider that answers every call with one
  vector for each text.
\<close>

lemma embed_loop_succeeds:
  assumes "0 < bs"
    and "\<forall>c texts. \<exists>vs. embed env c texts = Some vs \<and> length vs = length texts"
  shows "\<exists>all w'. embed_loop env documents bs i acc w = Some (Inr all, w')
           \<and> length all = length acc + (length documents - i)
           \<and> length (embed_calls w') = length (embed_calls w) + (length documents - i + bs - 1) div bs
           \<and> source_files w' = source_files w \<and> embeddings_file w' = embeddings_file w
           \<and> disk_writable w' = disk_writable w \<and> cachedDocuments w' = cachedDocuments w
           \<and> chat_calls w' = chat_calls w"
proof (induction "length documents - i" arbitrary: i acc w rule: less_induct)
  case less
  show ?case
  proof (cases "i < length documents")
    case False
    then have "(length documents - i + bs - 1) div bs = 0" using assms(1) by simp
    with False show ?thesis by (subst embed_loop.simps) simp
  next
    case True
    let ?texts = "map (\<lambda>d. JStr (doc_text (numberToString env) d)) (take bs (drop i documents))"
    let ?w = "(print (Log (batch_message i bs (length documents))) w)
                \<lparr>embed_calls := embed_calls w @ [?texts], slept := slept w + 10000\<rparr>"
    obtain vs where vs: "embed env (length (embed_calls w)) ?texts = Some vs"
      and len: "length vs = length ?texts"
      using assms(2) by blast
    have step: "embed_loop env documents bs i acc w = embed_loop env documents bs (i + bs) (acc @ vs) ?w"
      using True vs by (subst embed_loop.simps) simp
    have "length documents - (i + bs) < length documents - i" using True assms(1) by simp
    from less [OF this, of "acc @ vs" ?w]
    obtain all w' where r: "embed_loop env documents bs (i + bs) (acc @ vs) ?w = Some (Inr all, w')"
      and l: "length all = length (acc @ vs) + (length documents - (i + bs))"
      and c: "length (embed_calls w') = length (embed_calls ?w) + (length documents - (i + bs) + bs - 1) div bs"
      and f: "source_files w' = source_files ?w" "embeddings_file w' = embeddings_file ?w"
        "disk_writable w' = disk_writable ?w" "cachedDocuments w' = cachedDocuments ?w"
        "chat_calls w' = chat_calls ?w"
      by blast
    have "length all = length acc + (length documents - i)"
      using l len True by (simp add: min_def)
    moreover have "length (embed_calls w') = length (embed_calls w) + (length documents - i + bs - 1) div bs"
      using c batches_step [OF assms(1) True] by (simp add: print_def)
    ultimately show ?thesis using step r f by (simp add: print_def)
  qed
qed

text \<open>The loop with a positive batch size and a call, among those it would make, that fails.\<close>

lemma embed_loop_fails:
  assumes "0 < bs"
    and "length (embed_calls w) \<le> c"
    and "c < length (embed_calls w) + (length documents - i + bs - 1) div bs"
    and "\<forall>texts. embed env c texts = None"
  shows "\<exists>w'. embed_loop env documents bs i acc w = Some (Inl ProviderError, w')
           \<and> source_files w' = source_files w \<and> embeddings_file w' = embeddings_file w
           \<and> disk_writable w' = disk_writable w \<and> cachedDocuments w' = cachedDocuments w
           \<and> chat_calls w' = chat_calls w"
  using assms(2,3)
proof (induction "length documents - i" arbitrary: i acc w rule: less_induct)
  case less
  have True: "i < length documents"
  proof (rule ccontr)
    assume "\<not> i < length documents"
    then have "(length documents - i + bs - 1) div bs = 0" using assms(1) by simp
    with less.prems show False by simp
  qed
  let ?texts = "map (\<lambda>d. JStr (doc_text (numberToString env) d)) (take bs (drop i documents))"
  show ?case
  proof (cases "embed env (length (embed_calls w)) ?texts")
    case None
    with True show ?thesis by (subst embed_loop.simps) (simp add: print_def)
  next
    case (Some vs)
    let ?w = "(print (Log (batch_message i bs (length documents))) w)
                \<lparr>embed_calls := embed_calls w @ [?texts], slept := slept w + 10000\<rparr>"
    have step: "embed_loop env documents bs i acc w = embed_loop env documents bs (i + bs) (acc @ vs) ?w"
      using True Some by (subst embed_loop.simps) simp
    have "c \<noteq> length (embed_calls w)" using Some assms(4) by auto
    then have lo: "length (embed_calls ?w) \<le> c" using less.prems(1) by (simp add: print_def)
    have hi: "c < length (embed_calls ?w) + (length documents - (i + bs) + bs - 1) div bs"
      using less.prems(2) batches_step [OF assms(1) True] by (simp add: print_def)
    have "length documents - (i + bs) < length documents - i" using True assms(1) by simp
    from less.hyps [OF this lo hi, of "acc @ vs"] step show ?thesis by (simp add: print_def)
  qed
qed

lemma assign_embeddings_length:
  "length es \<le> length ds \<Longrightarrow> \<exists>ds'. assign_embeddings es ds = Inr ds' \<and> length ds' = length ds"
proof (induction es ds rule: assign_embeddings.induct)
  case (1 documents)
  show ?case by simp
next
  case (2 e es)
  then show ?case by simp
next
  case (3 e es d ds)
  then obtain ds' where "assign_embeddings es ds = Inr ds'" and "length ds' = length ds" by auto
  then show ?case by simp
qed

text \<open>
  The start with no usable embeddings file, a provider that answers every call with one
  vector for each text, and a disk that can be written: the whole corpus is embedded in
  batches of 96 and saved.
\<close>

lemma cold_start:
  assumes "\<forall>items. embeddings_file w \<noteq> Saved items"
    and "\<forall>c texts. \<exists>vs. embed env c texts = Some vs \<and> length vs = length texts"
    and "disk_writable w"
  shows "\<exists>w' saved docs. initializeDocuments env w = Some (Resolved, w')
           \<and> length (embed_calls w') = length (embed_calls w) + (length (fst (loadDocuments env w)) + 95) div 96
           \<and> embeddings_file w' = Saved saved \<and> length saved = length (fst (loadDocuments env w))
           \<and> cachedDocuments w' = Some docs \<and> length docs = length (fst (loadDocuments env w))"
proof -
  let ?w1 = "(print (Warn ''No existing embeddings file found. Will compute embeddings.'') w)\<lparr>cachedDocuments := None\<rparr>"
  have load: "loadEmbeddingsFromFile w = (None, print (Warn ''No existing embeddings file found. Will compute embeddings.'') w)"
    using assms(1) by (cases "embeddings_file w") (simp_all add: loadEmbeddingsFromFile_def)
  obtain documents w2 where ld: "loadDocuments env ?w1 = (documents, w2)"
    by (cases "loadDocuments env ?w1")
  have "fst (loadDocuments env ?w1) = fst (loadDocuments env w)"
    by (rule loadDocuments_documents) (simp add: print_def)
  with ld have docs: "documents = fst (loadDocuments env w)" by simp
  let ?w2 = "print (Log ''Embedding documents...'') w2"
  have f2: "embed_calls ?w2 = embed_calls w" "disk_writable ?w2" "embeddings_file ?w2 = embeddings_file w"
    using loadDocuments_frame [OF ld] assms(3) by (simp_all add: print_def)
  from embed_loop_succeeds [OF _ assms(2), of 96 documents 0 "[]" ?w2]
  obtain all w3 where el: "embedDocumentsInBatches env documents 96 ?w2 = Some (Inr all, w3)"
    and la: "length all = length documents"
    and lc: "length (embed_calls w3) = length (embed_calls ?w2) + (length documents + 95) div 96"
    and f3: "disk_writable w3 = disk_writable ?w2"
    by (auto simp: embedDocumentsInBatches_def)
  from assign_embeddings_length [of all documents] la
  obtain documents' where as: "assign_embeddings all documents = Inr documents'"
    and ld': "length documents' = length documents"
    by auto
  have w3: "disk_writable w3" using f3 f2 by simp
  show ?thesis
    using load ld el as w3 lc f2 ld' docs
    by (simp add: initializeDocuments_def saveEmbeddingsToFile_def print_def)
qed

section \<open>The claims about the corpus build and the embeddings file\<close>

lemma example_corpus_size:
  "length (fst (loadDocuments example_provider (startup example_sources cache writable))) = 2"
  by (simp add: loadDocuments_def startup_def files_def example_sources_def normalize_def
      tours_doc_def print_def split: prod.splits)

lemma forEach_push_empty_tours:
  "\<exists>ds. forEach_push (tours_doc n) (replicate k (JObj [])) documents = (ds, None)
        \<and> length ds = length documents + k"
proof (induction k arbitrary: documents)
  case 0
  show ?case by simp
next
  case (Suc k)
  from Suc [of "documents @ [\<lparr>doc_id = ''tours_'' @ template n None,
      data = \<lparr>title = None, snippet = js_or None (Some (JStr []))\<rparr>, embedding = None\<rparr>]"]
  show ?case by (simp add: tours_doc_def)
qed

lemma large_corpus_size:
  "length (fst (loadDocuments env (startup large_sources cache writable))) = 200"
proof -
  obtain ds where "forEach_push (tours_doc (numberToString env)) (replicate 200 (JObj [])) [] = (ds, None)"
    and "length ds = 200"
    using forEach_push_empty_tours [of "numberToString env" 200 "[]"] by auto
  then show ?thesis
    by (simp add: loadDocuments_def startup_def files_def large_sources_def normalize_def
        print_def split: prod.splits)
qed

text \<open>
  C2. When the embeddings file is loaded, \<open>initializeDocuments\<close> makes no embedding
  call. When the file is absent, the provider answers every call with one vector for
  each text and the file can be written, it makes exactly \<open>ceil(corpus size / 96)\<close>
  embedding calls, and the file it writes holds as many records as the corpus has
  documents.
\<close>

theorem initializeDocuments_embedding_calls:
  "(embeddings_file w = Saved items \<longrightarrow>
      (\<exists>w'. initializeDocuments env w = Some (Resolved, w') \<and> embed_calls w' = embed_calls w
          \<and> embeddings_file w' = Saved items))
   \<and> (embeddings_file w = Absent
        \<and> (\<forall>c texts. \<exists>vs. embed env c texts = Some vs \<and> length vs = length texts)
        \<and> disk_writable w \<longrightarrow>
      (\<exists>w' saved. initializeDocuments env w = Some (Resolved, w')
          \<and> length (embed_calls w') =
              length (embed_calls w) + nat \<lceil>real (length (fst (loadDocuments env w))) / 96\<rceil>
          \<and> embeddings_file w' = Saved saved
          \<and> length saved = length (fst (loadDocuments env w))))"
proof (intro conjI impI)
  assume "embeddings_file w = Saved items"
  then show "\<exists>w'. initializeDocuments env w = Some (Resolved, w') \<and> embed_calls w' = embed_calls w
      \<and> embeddings_file w' = Saved items"
    by (simp add: initializeDocuments_def loadEmbeddingsFromFile_def print_def)
next
  assume a: "embeddings_file w = Absent
        \<and> (\<forall>c texts. \<exists>vs. embed env c texts = Some vs \<and> length vs = length texts)
        \<and> disk_writable w"
  then have "\<forall>items. embeddings_file w \<noteq> Saved items" by simp
  from cold_start [OF this] a
  show "\<exists>w' saved. initializeDocuments env w = Some (Resolved, w')
          \<and> length (embed_calls w') =
              length (embed_calls w) + nat \<lceil>real (length (fst (loadDocuments env w))) / 96\<rceil>
          \<and> embeddings_file w' = Saved saved
          \<and> length saved = length (fst (loadDocuments env w))"
    unfolding ceiling_div_96 by blast
qed

theorem initializeDocuments_embedding_calls_witness:
  "(\<exists>w'. initializeDocuments example_provider (startup example_sources (Saved []) True) = Some (Resolved, w')
        \<and> embed_calls w' = [])
   \<and> (\<exists>w' saved. initializeDocuments example_provider (startup example_sources Absent True) = Some (Resolved, w')
        \<and> length (embed_calls w') = 1 \<and> embeddings_file w' = Saved saved \<and> length saved = 2)
   \<and> (\<exists>w' saved. initializeDocuments example_provider (startup large_sources Absent True) = Some (Resolved, w')
        \<and> length (embed_calls w') = 3 \<and> embeddings_file w' = Saved saved \<and> length saved = 200)"
proof -
  note t = initializeDocuments_embedding_calls
  have p: "\<forall>c texts. \<exists>vs. embed example_provider c texts = Some vs \<and> length vs = length texts"
    by (simp add: example_provider_def)
  have f: "embeddings_file (startup s cache writable) = cache"
    "disk_writable (startup s cache writable) = writable"
    "embed_calls (startup s cache writable) = []" for s cache writable
    by (simp_all add: startup_def)
  have "\<exists>w'. initializeDocuments example_provider (startup example_sources (Saved []) True) = Some (Resolved, w')
        \<and> embed_calls w' = []"
    using t [THEN conjunct1, of "startup example_sources (Saved []) True" "[]" example_provider]
    by (auto simp: f)
  moreover have "\<exists>w' saved. initializeDocuments example_provider (startup example_sources Absent True) = Some (Resolved, w')
        \<and> length (embed_calls w') = 1 \<and> embeddings_file w' = Saved saved \<and> length saved = 2"
  proof -
    let ?w = "startup example_sources Absent True"
    have "embeddings_file ?w = Absent \<and> (\<forall>c texts. \<exists>vs. embed example_provider c texts = Some vs \<and> length vs = length texts)
        \<and> disk_writable ?w"
      using p by (simp add: f)
    with t [THEN conjunct2, of ?w example_provider]
    obtain w' saved where "initializeDocuments example_provider ?w = Some (Resolved, w')"
      and "length (embed_calls w') =
             length (embed_calls ?w) + nat \<lceil>real (length (fst (loadDocuments example_provider ?w))) / 96\<rceil>"
      and "embeddings_file w' = Saved saved"
      and "length saved = length (fst (loadDocuments example_provider ?w))"
      by blast
    then show ?thesis
      unfolding ceiling_div_96 example_corpus_size by (simp add: f)
  qed
  moreover have "\<exists>w' saved. initializeDocuments example_provider (startup large_sources Absent True) = Some (Resolved, w')
        \<and> length (embed_calls w') = 3 \<and> embeddings_file w' = Saved saved \<and> length saved = 200"
  proof -
    let ?w = "startup large_sources Absent True"
    have "embeddings_file ?w = Absent \<and> (\<forall>c texts. \<exists>vs. embed example_provider c texts = Some vs \<and> length vs = length texts)
        \<and> disk_writable ?w"
      using p by (simp add: f)
    with t [THEN conjunct2, of ?w example_provider]
    obtain w' saved where "initializeDocuments example_provider ?w = Some (Resolved, w')"
      and "length (embed_calls w') =
             length (embed_calls ?w) + nat \<lceil>real (length (fst (loadDocuments example_provider ?w))) / 96\<rceil>"
      and "embeddings_file w' = Saved saved"
      and "length saved = length (fst (loadDocuments example_provider ?w))"
      by blast
    then show ?thesis
      unfolding ceiling_div_96 large_corpus_size by (simp add: f)
  qed
  ultimately show ?thesis by blast
qed

text \<open>
  C5. If the embeddings file is not loaded and one of the embedding calls of the build
  fails, \<open>initializeDocuments\<close> is rejected, the embeddings file and the source files
  are as before, and \<open>cachedDocuments\<close> is \<open>null\<close>: the documents embedded so far are
  not installed.
\<close>

theorem failed_batch_writes_no_cache:
  assumes "\<forall>items. embeddings_file w \<noteq> Saved items"
    and "length (embed_calls w) \<le> c"
    and "c < length (embed_calls w) + nat \<lceil>real (length (fst (loadDocuments env w))) / 96\<rceil>"
    and "\<forall>texts. embed env c texts = None"
  shows "\<exists>w'. initializeDocuments env w = Some (Rejected ProviderError, w')
           \<and> embeddings_file w' = embeddings_file w
           \<and> source_files w' = source_files w
           \<and> cachedDocuments w' = None"
proof -
  let ?w1 = "(print (Warn ''No existing embeddings file found. Will compute embeddings.'') w)\<lparr>cachedDocuments := None\<rparr>"
  have load: "loadEmbeddingsFromFile w = (None, print (Warn ''No existing embeddings file found. Will compute embeddings.'') w)"
    using assms(1) by (cases "embeddings_file w") (simp_all add: loadEmbeddingsFromFile_def)
  obtain documents w2 where ld: "loadDocuments env ?w1 = (documents, w2)"
    by (cases "loadDocuments env ?w1")
  have "fst (loadDocuments env ?w1) = fst (loadDocuments env w)"
    by (rule loadDocuments_documents) (simp add: print_def)
  with ld have docs: "documents = fst (loadDocuments env w)" by simp
  let ?w2 = "print (Log ''Embedding documents...'') w2"
  have f2: "embed_calls ?w2 = embed_calls w" "embeddings_file ?w2 = embeddings_file w"
    "source_files ?w2 = source_files w" "cachedDocuments ?w2 = None"
    using loadDocuments_frame [OF ld] by (simp_all add: print_def)
  have lo: "length (embed_calls ?w2) \<le> c" using assms(2) f2 by simp
  have hi: "c < length (embed_calls ?w2) + (length documents - 0 + 96 - 1) div 96"
    using assms(3) f2 docs by (simp add: ceiling_div_96)
  from embed_loop_fails [OF _ lo hi assms(4), of "[]"]
  obtain w3 where "embedDocumentsInBatches env documents 96 ?w2 = Some (Inl ProviderError, w3)"
    and "embeddings_file w3 = embeddings_file ?w2" and "source_files w3 = source_files ?w2"
    and "cachedDocuments w3 = cachedDocuments ?w2"
    by (auto simp: embedDocumentsInBatches_def)
  then show ?thesis
    using load ld f2 by (simp add: initializeDocuments_def)
qed

theorem failed_batch_writes_no_cache_witness:
  "length (fst (loadDocuments failing_provider (startup large_sources Corrupt True))) = 200
   \<and> embed failing_provider 1 [JStr ''. ''] = None
   \<and> (\<exists>w'. initializeDocuments failing_provider (startup large_sources Corrupt True)
              = Some (Rejected ProviderError, w')
          \<and> embeddings_file w' = Corrupt \<and> cachedDocuments w' = None)"
proof -
  let ?w = "startup large_sources Corrupt True"
  have 1: "\<forall>items. embeddings_file ?w \<noteq> Saved items" by (simp add: startup_def)
  have 2: "length (embed_calls ?w) \<le> 1" by (simp add: startup_def)
  have 3: "1 < length (embed_calls ?w) + nat \<lceil>real (length (fst (loadDocuments failing_provider ?w))) / 96\<rceil>"
    unfolding ceiling_div_96 large_corpus_size by (simp add: startup_def)
  have 4: "\<forall>texts. embed failing_provider 1 texts = None" by (simp add: failing_provider_def)
  from failed_batch_writes_no_cache [OF 1 2 3 4]
  obtain w' where "initializeDocuments failing_provider ?w = Some (Rejected ProviderError, w')"
    and "embeddings_file w' = embeddings_file ?w" and "cachedDocuments w' = None"
    by blast
  then have "\<exists>w'. initializeDocuments failing_provider ?w = Some (Rejected ProviderError, w')
          \<and> embeddings_file w' = Corrupt \<and> cachedDocuments w' = None"
    by (simp add: startup_def)
  with 4 show ?thesis by (simp add: large_corpus_size)
qed

text \<open>
  C9 (as amended). \<open>loadEmbeddingsFromFile\<close> has two outcomes. A file that parses gives
  its records as documents. An absent file and a corrupt file both give \<open>null\<close>, with
  one and the same warning, "No existing embeddings file found. Will compute
  embeddings."; nothing tells the operator that a file was there and corrupt. A corrupt
  file is treated as an absent one: with a provider that answers every call with one
  vector for each text and a disk that can be written, \<open>initializeDocuments\<close> embeds
  the whole corpus again and writes the file anew.
\<close>

theorem loadEmbeddingsFromFile_outcomes:
  "(embeddings_file w = Saved items \<longrightarrow>
      loadEmbeddingsFromFile w =
        (Some (map (\<lambda>item. \<lparr>doc_id = item_id item,
                              data = \<lparr>title = item_title item, snippet = item_snippet item\<rparr>,
                              embedding = item_embedding item\<rparr>) items),
         print (Log (''Loaded '' @ show_nat (length items) @ '' embeddings from ./documents/embeddings.json'')) w))
   \<and> (embeddings_file w = Absent \<or> embeddings_file w = Corrupt \<longrightarrow>
        loadEmbeddingsFromFile w =
          (None, print (Warn ''No existing embeddings file found. Will compute embeddings.'') w))
   \<and> (embeddings_file w = Corrupt
        \<and> (\<forall>c texts. \<exists>vs. embed env c texts = Some vs \<and> length vs = length texts)
        \<and> disk_writable w \<longrightarrow>
      (\<exists>w' saved. initializeDocuments env w = Some (Resolved, w')
          \<and> length (embed_calls w') =
              length (embed_calls w) + nat \<lceil>real (length (fst (loadDocuments env w))) / 96\<rceil>
          \<and> embeddings_file w' = Saved saved
          \<and> length saved = length (fst (loadDocuments env w))))"
proof (intro conjI impI)
  assume "embeddings_file w = Saved items"
  then show "loadEmbeddingsFromFile w =
        (Some (map (\<lambda>item. \<lparr>doc_id = item_id item,
                              data = \<lparr>title = item_title item, snippet = item_snippet item\<rparr>,
                              embedding = item_embedding item\<rparr>) items),
         print (Log (''Loaded '' @ show_nat (length items) @ '' embeddings from ./documents/embeddings.json'')) w)"
    by (simp add: loadEmbeddingsFromFile_def EMBEDDINGS_FILE_def)
next
  assume "embeddings_file w = Absent \<or> embeddings_file w = Corrupt"
  then show "loadEmbeddingsFromFile w =
          (None, print (Warn ''No existing embeddings file found. Will compute embeddings.'') w)"
    by (auto simp: loadEmbeddingsFromFile_def)
next
  assume a: "embeddings_file w = Corrupt
        \<and> (\<forall>c texts. \<exists>vs. embed env c texts = Some vs \<and> length vs = length texts)
        \<and> disk_writable w"
  then have "\<forall>items. embeddings_file w \<noteq> Saved items" by simp
  from cold_start [OF this] a
  show "\<exists>w' saved. initializeDocuments env w = Some (Resolved, w')
          \<and> length (embed_calls w') =
              length (embed_calls w) + nat \<lceil>real (length (fst (loadDocuments env w))) / 96\<rceil>
          \<and> embeddings_file w' = Saved saved
          \<and> length saved = length (fst (loadDocuments env w))"
    unfolding ceiling_div_96 by blast
qed

theorem loadEmbeddingsFromFile_outcomes_witness:
  "fst (loadEmbeddingsFromFile (startup example_sources (Saved [\<lparr>item_id = ''tours_Nile'', item_title = None,
          item_snippet = Some (JStr []), item_embedding = Some [1, 0]\<rparr>]) True))
     = Some [\<lparr>doc_id = ''tours_Nile'', data = \<lparr>title = None, snippet = Some (JStr [])\<rparr>, embedding = Some [1, 0]\<rparr>]
   \<and> fst (loadEmbeddingsFromFile (startup example_sources Absent True)) = None
   \<and> fst (loadEmbeddingsFromFile (startup example_sources Corrupt True)) = None
   \<and> (\<exists>w' saved. initializeDocuments example_provider (startup example_sources Corrupt True) = Some (Resolved, w')
        \<and> length (embed_calls w') = 1 \<and> embeddings_file w' = Saved saved \<and> length saved = 2)"
proof -
  note t = loadEmbeddingsFromFile_outcomes
  let ?items = "[\<lparr>item_id = ''tours_Nile'', item_title = None,
          item_snippet = Some (JStr []), item_embedding = Some [1, 0]\<rparr>]"
  have f: "embeddings_file (startup s cache writable) = cache"
    "disk_writable (startup s cache writable) = writable"
    "embed_calls (startup s cache writable) = []" for s cache writable
    by (simp_all add: startup_def)
  have "fst (loadEmbeddingsFromFile (startup example_sources (Saved ?items) True))
     = Some [\<lparr>doc_id = ''tours_Nile'', data = \<lparr>title = None, snippet = Some (JStr [])\<rparr>, embedding = Some [1, 0]\<rparr>]"
    using t [THEN conjunct1, of "startup example_sources (Saved ?items) True" ?items]
    by (simp add: f)
  moreover have "fst (loadEmbeddingsFromFile (startup example_sources Absent True)) = None"
    using t [THEN conjunct2, THEN conjunct1, of "startup example_sources Absent True"]
    by (simp add: f)
  moreover have "fst (loadEmbeddingsFromFile (startup example_sources Corrupt True)) = None"
    using t [THEN conjunct2, THEN conjunct1, of "startup example_sources Corrupt True"]
    by (simp add: f)
  moreover have "\<exists>w' saved. initializeDocuments example_provider (startup example_sources Corrupt True) = Some (Resolved, w')
        \<and> length (embed_calls w') = 1 \<and> embeddings_file w' = Saved saved \<and> length saved = 2"
  proof -
    let ?w = "startup example_sources Corrupt True"
    have "embeddings_file ?w = Corrupt \<and> (\<forall>c texts. \<exists>vs. embed example_provider c texts = Some vs \<and> length vs = length texts)
        \<and> disk_writable ?w"
      by (simp add: f example_provider_def)
    with t [THEN conjunct2, THEN conjunct2, of ?w example_provider]
    obtain w' saved where "initializeDocuments example_provider ?w = Some (Resolved, w')"
      and "length (embed_calls w') =
             length (embed_calls ?w) + nat \<lceil>real (length (fst (loadDocuments example_provider ?w))) / 96\<rceil>"
      and "embeddings_file w' = Saved saved"
      and "length saved = length (fst (loadDocuments example_provider ?w))"
      by blast
    then show ?thesis
      unfolding ceiling_div_96 example_corpus_size by (simp add: f)
  qed
  ultimately show ?thesis by blast
qed

theorem corrupt_cache_same_warning_counterexample:
  "loadEmbeddingsFromFile (startup example_sources Absent True)
     = (None, print (Warn ''No existing embeddings file found. Will compute embeddings.'')
                (startup example_sources Absent True))
   \<and> loadEmbeddingsFromFile (startup example_sources Corrupt True)
     = (None, print (Warn ''No existing embeddings file found. Will compute embeddings.'')
                (startup example_sources Corrupt True))
   \<and> console (snd (loadEmbeddingsFromFile (startup example_sources Corrupt True)))
     = console (snd (loadEmbeddingsFromFile (startup example_sources Absent True)))"
  by (simp add: loadEmbeddingsFromFile_def startup_def print_def)

text \<open>
  C10. For every sequence of documents, on a disk that can be written,
  \<open>saveEmbeddingsToFile\<close> followed by \<open>loadEmbeddingsFromFile\<close> gives a sequence of
  the same length in which every element has the id, the title, the snippet and the
  embedding of the saved document at its position.
\<close>

theorem save_load_roundtrip:
  assumes "disk_writable w"
  shows "\<exists>w1 w2 loaded.
           saveEmbeddingsToFile documents w = (Inr (), w1)
         \<and> loadEmbeddingsFromFile w1 = (Some loaded, w2)
         \<and> length loaded = length documents
         \<and> (\<forall>i<length documents.
               doc_id (loaded ! i) = doc_id (documents ! i)
             \<and> title (data (loaded ! i)) = title (data (documents ! i))
             \<and> snippet (data (loaded ! i)) = snippet (data (documents ! i))
             \<and> embedding (loaded ! i) = embedding (documents ! i))"
  using assms
  by (simp add: saveEmbeddingsToFile_def loadEmbeddingsFromFile_def print_def Let_def)

theorem save_load_roundtrip_witness:
  "disk_writable (startup example_sources Corrupt True)
   \<and> (\<exists>w1 w2. saveEmbeddingsToFile example_documents (startup example_sources Corrupt True) = (Inr (), w1)
         \<and> loadEmbeddingsFromFile w1 = (Some example_documents, w2))"
proof -
  let ?w = "startup example_sources Corrupt True"
  have h: "disk_writable ?w" by (simp add: startup_def)
  from save_load_roundtrip [OF h, of example_documents]
  obtain w1 w2 loaded where s: "saveEmbeddingsToFile example_documents ?w = (Inr (), w1)"
    and l: "loadEmbeddingsFromFile w1 = (Some loaded, w2)"
    and n: "length loaded = length example_documents"
    and e: "\<forall>i<length example_documents.
               doc_id (loaded ! i) = doc_id (example_documents ! i)
             \<and> title (data (loaded ! i)) = title (data (example_documents ! i))
             \<and> snippet (data (loaded ! i)) = snippet (data (example_documents ! i))
             \<and> embedding (loaded ! i) = embedding (example_documents ! i)"
    by blast
  have "loaded ! i = example_documents ! i" if "i < length example_documents" for i
    using e that by (intro document.equality doc_data.equality) simp_all
  with n have "loaded = example_documents" by (simp add: list_eq_iff_nth_eq)
  with s l h show ?thesis by blast
qed

section \<open>The claims about the routes and the normalizer\<close>

lemma generate_status: "status (fst (generate env reqBody w)) \<in> {200, 400, 500}"
  by (simp add: generate_def cohere_failed_def Let_def
      split: option.splits sum.splits list.splits prod.splits)

text \<open>
  C3 (as amended). A request with a prompt that arrives before the corpus build has
  completed never crashes the route: \<open>/generate\<close> always answers, with status 200, 400
  or 500. There is no outcome of its own for a corpus that is not ready. While
  \<open>cachedDocuments\<close> is still the empty list of the start, the route embeds the prompt,
  ranks against the empty corpus, calls the generation provider with no documents and,
  if both provider calls succeed, returns its answer with status 200. While
  \<open>cachedDocuments\<close> is \<open>null\<close> (the embeddings file was not loaded and the build is
  under way), the route returns status 500 with "Cohere request failed", the response
  of a failed provider call.
\<close>

theorem generate_before_corpus_is_built:
  assumes "map_of reqBody ''prompt'' = Some prompt" and "truthy (Some prompt)"
  shows "status (fst (generate env reqBody w)) \<in> {200, 400, 500}
       \<and> (cachedDocuments w = Some []
            \<and> embed env (length (embed_calls w)) [prompt] = Some embeddings
            \<and> chat env (length (chat_calls w)) \<lparr>chat_message = prompt, chat_documents = Some []\<rparr> = Some response
          \<longrightarrow> fst (generate env reqBody w) =
                \<lparr>status = 200,
                 body = json_object [(''text'', response_text response),
                                     (''citations'', if nullish (citations response) then Some (JArr [])
                                                     else citations response)]\<rparr>
              \<and> chat_calls (snd (generate env reqBody w)) =
                  chat_calls w @ [\<lparr>chat_message = prompt, chat_documents = Some []\<rparr>])
       \<and> (cachedDocuments w = None
          \<longrightarrow> fst (generate env reqBody w) =
                \<lparr>status = 500, body = JObj [(''error'', JStr ''Cohere request failed'')]\<rparr>)"
proof (intro conjI impI)
  show "status (fst (generate env reqBody w)) \<in> {200, 400, 500}"
    by (rule generate_status)
next
  assume a: "cachedDocuments w = Some []
            \<and> embed env (length (embed_calls w)) [prompt] = Some embeddings
            \<and> chat env (length (chat_calls w)) \<lparr>chat_message = prompt, chat_documents = Some []\<rparr> = Some response"
  then have top: "(case embeddings of [] \<Rightarrow> if ([]::document list) = [] then Inr [] else Inl TypeError
                   | queryEmbedding # _ \<Rightarrow> getTopKDocuments (roundNumber env) queryEmbedding [] 10) = Inr []"
    by (cases embeddings) (simp_all add: getTopKDocuments_def array_sort_def)
  show "fst (generate env reqBody w) =
                \<lparr>status = 200,
                 body = json_object [(''text'', response_text response),
                                     (''citations'', if nullish (citations response) then Some (JArr [])
                                                     else citations response)]\<rparr>"
    using assms a top by (simp add: generate_def print_def Let_def)
  show "chat_calls (snd (generate env reqBody w)) =
                  chat_calls w @ [\<lparr>chat_message = prompt, chat_documents = Some []\<rparr>]"
    using assms a top by (simp add: generate_def print_def Let_def)
next
  assume "cachedDocuments w = None"
  then show "fst (generate env reqBody w) =
                \<lparr>status = 500, body = JObj [(''error'', JStr ''Cohere request failed'')]\<rparr>"
    using assms by (simp add: generate_def print_def Let_def cohere_failed_def split: option.splits)
qed

theorem generate_before_corpus_is_built_witness:
  "map_of [(''prompt'', JStr ''Where to go?'')] ''prompt'' = Some (JStr ''Where to go?'')
   \<and> truthy (Some (JStr ''Where to go?''))
   \<and> cachedDocuments ((startup example_sources Corrupt True)\<lparr>cachedDocuments := None\<rparr>) = None
   \<and> fst (generate example_provider [(''prompt'', JStr ''Where to go?'')]
             ((startup example_sources Corrupt True)\<lparr>cachedDocuments := None\<rparr>))
       = \<lparr>status = 500, body = JObj [(''error'', JStr ''Cohere request failed'')]\<rparr>
   \<and> status (fst (generate example_provider [(''prompt'', JStr ''Where to go?'')]
                     (startup example_sources Absent True))) = 200"
proof -
  let ?body = "[(''prompt'', JStr ''Where to go?'')]"
  let ?w = "(startup example_sources Corrupt True)\<lparr>cachedDocuments := None\<rparr>"
  let ?v = "startup example_sources Absent True"
  have 1: "map_of ?body ''prompt'' = Some (JStr ''Where to go?'')" by simp
  have 2: "truthy (Some (JStr ''Where to go?''))" by simp
  have 3: "cachedDocuments ?w = None" by simp
  note t = generate_before_corpus_is_built [OF 1 2]
  have "fst (generate example_provider ?body ?w)
       = \<lparr>status = 500, body = JObj [(''error'', JStr ''Cohere request failed'')]\<rparr>"
    using t [THEN conjunct2, THEN conjunct2, of ?w example_provider] 3 by blast
  moreover have "status (fst (generate example_provider ?body ?v)) = 200"
  proof -
    have "cachedDocuments ?v = Some []
        \<and> embed example_provider (length (embed_calls ?v)) [JStr ''Where to go?''] = Some [[1, 0]]
        \<and> chat example_provider (length (chat_calls ?v))
            \<lparr>chat_message = JStr ''Where to go?'', chat_documents = Some []\<rparr>
          = Some \<lparr>response_text = Some (JStr ''Welcome''), citations = None\<rparr>"
      by (simp add: startup_def example_provider_def)
    with t [THEN conjunct2, THEN conjunct1, of ?v example_provider "[[1, 0]]"
        "\<lparr>response_text = Some (JStr ''Welcome''), citations = None\<rparr>"]
    show ?thesis by simp
  qed
  ultimately show ?thesis using 1 2 3 by blast
qed

theorem generate_on_empty_corpus_counterexample:
  "cachedDocuments (startup example_sources Absent True) = Some []
   \<and> fst (generate example_provider [(''prompt'', JStr ''Where to go?'')] (startup example_sources Absent True))
       = \<lparr>status = 200, body = JObj [(''text'', JStr ''Welcome''), (''citations'', JArr [])]\<rparr>
   \<and> chat_calls (snd (generate example_provider [(''prompt'', JStr ''Where to go?'')]
                         (startup example_sources Absent True)))
       = [\<lparr>chat_message = JStr ''Where to go?'', chat_documents = Some []\<rparr>]"
  by (simp add: generate_def startup_def example_provider_def print_def Let_def json_object_def
      getTopKDocuments_def array_sort_def)

text \<open>
  C8. A request to \<open>/generate\<close> with no prompt, or with an empty one, is rejected with
  status 400 and nothing is called. A request to \<open>/holiday\<close> with no \<open>userInput\<close> is
  not rejected: the route calls the generation provider, with a message that holds the
  text "undefined", and answers 200 or 500 as the provider does.
\<close>

theorem holiday_without_userInput_calls_provider:
  "generate env [] w = (\<lparr>status = 400, body = JObj [(''error'', JStr ''Prompt is required'')]\<rparr>, w)
   \<and> generate env [(''prompt'', JStr [])] w
       = (\<lparr>status = 400, body = JObj [(''error'', JStr ''Prompt is required'')]\<rparr>, w)
   \<and> chat_calls (snd (holiday env [] w)) =
       chat_calls w @
       [\<lparr>chat_message = JStr ''Generate a holiday itinerary based on this request: \"undefined\". Format the response as Day-wise itinerary.'',
         chat_documents = None\<rparr>]
   \<and> status (fst (holiday env [] w)) \<noteq> 400"
  by (simp add: generate_def holiday_def template_def print_def Let_def split: option.splits)

theorem holiday_without_userInput_calls_provider_witness:
  "holiday example_provider [] (startup example_sources Absent True)
     = (\<lparr>status = 200, body = JObj [(''itinerary'', JStr ''Welcome'')]\<rparr>,
        (startup example_sources Absent True)
          \<lparr>chat_calls :=
             [\<lparr>chat_message = JStr ''Generate a holiday itinerary based on this request: \"undefined\". Format the response as Day-wise itinerary.'',
               chat_documents = None\<rparr>]\<rparr>)"
proof -
  let ?w = "startup example_sources Absent True"
  from holiday_without_userInput_calls_provider [of example_provider ?w]
  have "chat_calls (snd (holiday example_provider [] ?w)) =
       chat_calls ?w @
       [\<lparr>chat_message = JStr ''Generate a holiday itinerary based on this request: \"undefined\". Format the response as Day-wise itinerary.'',
         chat_documents = None\<rparr>]"
    by blast
  moreover have "holiday example_provider [] ?w =
      (\<lparr>status = 200, body = JObj [(''itinerary'', JStr ''Welcome'')]\<rparr>,
       ?w\<lparr>chat_calls := chat_calls (snd (holiday example_provider [] ?w))\<rparr>)"
    by (simp add: holiday_def example_provider_def startup_def template_def json_object_def Let_def)
  ultimately show ?thesis by (simp add: startup_def)
qed

lemma object_values_truthy: "truthy x \<Longrightarrow> \<exists>vs. object_values x = Inr vs"
proof (cases x)
  case None
  then show "truthy x \<Longrightarrow> ?thesis" by simp
next
  case (Some j)
  then show "truthy x \<Longrightarrow> ?thesis" by (cases j) simp_all
qed

text \<open>
  C6. A country record in which every field is missing makes neither branch throw, and
  the title is the empty string; but the snippet holds the text "undefined" for every
  missing field that the template prints without a default, and so does the id.
\<close>

theorem country_snippet_prints_undefined:
  "rest_countries_doc n (JObj []) =
     Inr \<lparr>doc_id = ''rest_countries_undefined'',
          data = \<lparr>title = Some (JStr ''''),
                  snippet = Some (JStr ''Official Name: undefined. Capital: . Region: undefined. Subregion: undefined. Population: undefined. Languages: . Area: undefined sq km.'')\<rparr>,
          embedding = None\<rparr>
   \<and> merged_countries_doc n (JObj []) =
     Inr \<lparr>doc_id = ''merged_countries_undefined'',
          data = \<lparr>title = Some (JStr ''''),
                  snippet = Some (JStr ''Capital: undefined, Region: undefined, Population: undefined, Language: undefined, Currency: undefined'')\<rparr>,
          embedding = None\<rparr>
   \<and> (\<exists>d. rest_countries_doc n (JObj country) = Inr d)
   \<and> (\<exists>d. merged_countries_doc n (JObj country) = Inr d)"
proof (intro conjI)
  show "rest_countries_doc n (JObj []) =
     Inr \<lparr>doc_id = ''rest_countries_undefined'',
          data = \<lparr>title = Some (JStr ''''),
                  snippet = Some (JStr ''Official Name: undefined. Capital: . Region: undefined. Subregion: undefined. Population: undefined. Languages: . Area: undefined sq km.'')\<rparr>,
          embedding = None\<rparr>"
    by (simp add: rest_countries_doc_def js_or_def template_def array_join_def)
  show "merged_countries_doc n (JObj []) =
     Inr \<lparr>doc_id = ''merged_countries_undefined'',
          data = \<lparr>title = Some (JStr ''''),
                  snippet = Some (JStr ''Capital: undefined, Region: undefined, Population: undefined, Language: undefined, Currency: undefined'')\<rparr>,
          embedding = None\<rparr>"
    by (simp add: merged_countries_doc_def js_or_def template_def)
  have "truthy (js_or (map_of country ''languages'') (Some (JObj [])))"
    by (simp add: js_or_def)
  then obtain vs where "object_values (js_or (map_of country ''languages'') (Some (JObj []))) = Inr vs"
    using object_values_truthy by blast
  then show "\<exists>d. rest_countries_doc n (JObj country) = Inr d"
    by (simp add: rest_countries_doc_def Let_def)
  show "\<exists>d. merged_countries_doc n (JObj country) = Inr d"
    by (simp add: merged_countries_doc_def)
qed

theorem country_snippet_prints_undefined_witness:
  "snippet (data (projr (rest_countries_doc (\<lambda>x. ''0'') (JObj [])))) =
     Some (JStr ''Official Name: undefined. Capital: . Region: undefined. Subregion: undefined. Population: undefined. Languages: . Area: undefined sq km.'')"
  using country_snippet_prints_undefined [of "\<lambda>x. ''0''" "[]"] by simp

end
